theory Spec2Isabelle
  imports Complex_Main "HOL-Library.AList"
begin

section \<open>The card stage controller of \<open>assets/js/card_engine.js\<close>\<close>

text \<open>
  The theory embeds the class \<open>CardEngine\<close> of \<open>assets/js/card_engine.js\<close>: every method
  becomes a function from the engine state to the engine state, and the browser (pointer
  events, timers, animation frames, the clock, the document) becomes the event type
  \<open>event\<close> at the end of the definitions.

  Conventions of the embedding:
  \<^item> Card identifiers are strings, as the data model of the specification has them. A
    string is truthy in JavaScript when it is not empty.
  \<^item> A JavaScript number is a finite double, an infinity or \<open>NaN\<close> (type \<open>jsnum\<close>); finite
    doubles are idealised as reals, so rounding is not modelled. Values that the code
    computes from finite inputs only (stack slots, times) are plain reals.
  \<^item> \<open>performance.now()\<close> is the argument \<open>now\<close> of the operations that read the clock.
  \<^item> The tween library is external. A tween is kept as the code builds it (animated
    object, animated property, destination, duration, easing, completion callback) with
    its start time; the group update of a frame removes the tweens that have run for
    their duration and calls their completion callbacks. The interpolated position,
    rotation of the scene objects is the library's business and is not part of the state;
    so the two \<open>Math.random()\<close> draws of \<open>addCard\<close>, which only set the position an object
    starts from, do not appear.
  \<^item> A call of a public operation returns or throws (type \<open>outcome\<close>, after the
    scenarios); the one statement of the class that can throw is the \<open>appendChild\<close> of
    \<open>addCard\<close>.
\<close>

subsection \<open>JavaScript numbers\<close>

datatype jsnum = NaN | NegInf | Fin real | PosInf

fun js_neg :: "jsnum \<Rightarrow> jsnum" where
  "js_neg NaN = NaN"
| "js_neg NegInf = PosInf"
| "js_neg (Fin a) = Fin (- a)"
| "js_neg PosInf = NegInf"

fun js_add :: "jsnum \<Rightarrow> jsnum \<Rightarrow> jsnum" where
  "js_add NaN b = NaN"
| "js_add a NaN = NaN"
| "js_add (Fin a) (Fin b) = Fin (a + b)"
| "js_add PosInf NegInf = NaN"
| "js_add NegInf PosInf = NaN"
| "js_add PosInf b = PosInf"
| "js_add a PosInf = PosInf"
| "js_add NegInf b = NegInf"
| "js_add a NegInf = NegInf"

definition js_sub :: "jsnum \<Rightarrow> jsnum \<Rightarrow> jsnum" where
  "js_sub a b = js_add a (js_neg b)"

fun js_mul :: "jsnum \<Rightarrow> jsnum \<Rightarrow> jsnum" where
  "js_mul NaN b = NaN"
| "js_mul a NaN = NaN"
| "js_mul (Fin a) (Fin b) = Fin (a * b)"
| "js_mul (Fin a) PosInf = (if a = 0 then NaN else if 0 < a then PosInf else NegInf)"
| "js_mul (Fin a) NegInf = (if a = 0 then NaN else if 0 < a then NegInf else PosInf)"
| "js_mul PosInf (Fin b) = (if b = 0 then NaN else if 0 < b then PosInf else NegInf)"
| "js_mul NegInf (Fin b) = (if b = 0 then NaN else if 0 < b then NegInf else PosInf)"
| "js_mul PosInf PosInf = PosInf"
| "js_mul NegInf NegInf = PosInf"
| "js_mul PosInf NegInf = NegInf"
| "js_mul NegInf PosInf = NegInf"

text \<open>\<open>Math.sin\<close>: \<open>NaN\<close> on \<open>NaN\<close> and on the infinities.\<close>

fun Math_sin :: "jsnum \<Rightarrow> jsnum" where
  "Math_sin (Fin a) = Fin (sin a)"
| "Math_sin a = NaN"

text \<open>\<open>Math.min\<close> and \<open>Math.max\<close> of two numbers: \<open>NaN\<close> as soon as one argument is \<open>NaN\<close>.\<close>

fun Math_min :: "jsnum \<Rightarrow> jsnum \<Rightarrow> jsnum" where
  "Math_min NaN b = NaN"
| "Math_min a NaN = NaN"
| "Math_min NegInf b = NegInf"
| "Math_min a NegInf = NegInf"
| "Math_min PosInf b = b"
| "Math_min a PosInf = a"
| "Math_min (Fin a) (Fin b) = Fin (min a b)"

fun Math_max :: "jsnum \<Rightarrow> jsnum \<Rightarrow> jsnum" where
  "Math_max NaN b = NaN"
| "Math_max a NaN = NaN"
| "Math_max PosInf b = PosInf"
| "Math_max a PosInf = PosInf"
| "Math_max NegInf b = b"
| "Math_max a NegInf = a"
| "Math_max (Fin a) (Fin b) = Fin (max a b)"

text \<open>Membership in the closed interval from 0 to 1; \<open>NaN\<close> lies in no interval.\<close>

fun in_unit_interval :: "jsnum \<Rightarrow> bool" where
  "in_unit_interval (Fin a) = (0 \<le> a \<and> a \<le> 1)"
| "in_unit_interval a = False"

text \<open>An argument with a default value: \<open>Omitted\<close> is a call without it (or with \<open>undefined\<close>).\<close>

datatype 'a arg = Omitted | Given 'a

fun arg_or :: "'a \<Rightarrow> 'a arg \<Rightarrow> 'a" where
  "arg_or d Omitted = d"
| "arg_or d (Given v) = v"

subsection \<open>The stack layout\<close>

record stack_transform =
  targetX :: real
  targetY :: real
  targetZ :: real
  targetRot_x :: real
  targetRot_y :: real
  targetRot_z :: real

definition pseudoRandom :: "real \<Rightarrow> real" where
  "pseudoRandom seed = (let x = sin seed * 10000 in x - of_int \<lfloor>x\<rfloor>)"

definition computeStackTransform :: "nat \<Rightarrow> stack_transform" where
  "computeStackTransform index =
     (let angle = real index * 0.55;
          radius = 20 + min (real index) 16 * 2.2;
          jitter = (pseudoRandom (real index * 3.1) - 0.5) * 10
      in \<lparr> targetX = cos angle * radius + jitter,
           targetY = min (real index * 0.35) 6,
           targetZ = sin angle * radius + jitter,
           targetRot_x = - pi / 2,
           targetRot_y = (pseudoRandom (real index * 5.7) - 0.5) * 0.08,
           targetRot_z = (pseudoRandom (real index * 8.3) - 0.5) * 0.12 \<rparr>)"

subsection \<open>The data model\<close>

text \<open>\<open>object.userData.home\<close>: the resting slot of a card.\<close>

record home_transform =
  home_x :: real
  home_y :: real
  home_z :: real
  home_rx :: real
  home_ry :: real
  home_rz :: real

definition home_of :: "stack_transform \<Rightarrow> home_transform" where
  "home_of t = \<lparr> home_x = targetX t, home_y = targetY t, home_z = targetZ t,
                 home_rx = targetRot_x t, home_ry = targetRot_y t, home_rz = targetRot_z t \<rparr>"

text \<open>
  A \<open>CSS3DObject\<close> with the fields the engine reads and writes. \<open>oid\<close> is the identity of
  the object: \<open>addCard\<close> creates a fresh one at every call. \<open>home\<close> and \<open>hoverTween\<close> are
  \<open>undefined\<close> (\<open>None\<close>) until assigned; \<open>hovered\<close> is falsy until assigned.
  The objects live in the association list \<open>cards\<close> by value. The only reference
  to an object that the code keeps outside the Map is the one captured by the completion
  callback of \<open>discard\<close>, which is used for \<open>scene.remove\<close> alone: the callback holds the
  \<open>oid\<close>.
\<close>

record card_object =
  oid :: nat
  element :: string
  home :: "home_transform option"
  hovered :: bool
  visible :: bool
  hoverTween :: "nat option"

text \<open>The style of a DOM element, and whether it has been moved into the render surface.\<close>

record dom_element =
  display :: string
  pointerEvents :: string
  opacity :: string
  visibility :: string
  inRenderer :: bool

record hover_state =
  activeId :: "string option"
  leaveTimer :: "nat option"
  switchLockUntil :: real
  lockMs :: real
  releaseMs :: real

datatype tween_prop = Position | Rotation

datatype easing = Linear_None | Exponential_Out | Cubic_Out | Back_In

text \<open>
  The completion callbacks the code passes to \<open>onComplete\<close>: none, the empty callback of
  \<open>moveToStack\<close>, and the callback of \<open>discard\<close> with the object and the identifier it
  captured.
\<close>

datatype callback = NoCallback | EmptyCallback | DiscardComplete nat string

record tween =
  tid :: nat
  target :: nat
  property :: tween_prop
  destination :: "(string \<times> real) list"
  duration :: real
  easingFn :: easing
  startTime :: real
  onComplete :: callback

record breathing_state =
  phase :: real
  amp :: real
  speed :: real

record vec3 =
  vec_x :: jsnum
  vec_y :: jsnum
  vec_z :: jsnum

record vec_xz =
  off_x :: jsnum
  off_z :: jsnum

datatype log_entry = Log string | Error string

text \<open>
  The engine, with the parts of the browser it acts on: \<open>cards\<close> is the Map in insertion
  order, \<open>scene\<close> the children of the scene, \<open>tweens\<close> the tween group, \<open>timers\<close> the
  pending timeouts (handle, due time, captured identifier), \<open>document\<close> the elements by
  identifier. \<open>nextOid\<close>, \<open>nextTid\<close> and \<open>nextTimer\<close> name the next object, tween and
  timeout handle.
\<close>

record engine =
  cards :: "(string \<times> card_object) list"
  isInitialized :: bool
  prefersReducedMotion :: bool
  focusLevel :: jsnum
  baseCamera :: vec3
  parallax :: vec_xz
  parallaxTarget :: vec_xz
  breathing :: breathing_state
  hoverState :: hover_state
  camera_position :: vec3
  scene :: "nat list"
  tweens :: "tween list"
  timers :: "(nat \<times> real \<times> string) list"
  document :: "string \<Rightarrow> dom_element option"
  console :: "log_entry list"
  nextOid :: nat
  nextTid :: nat
  nextTimer :: nat

subsection \<open>The collaborators: Map, document, tween group, timeouts\<close>

definition cards_get :: "engine \<Rightarrow> string \<Rightarrow> card_object option" where
  "cards_get s k = map_of (cards s) k"

definition cards_has :: "engine \<Rightarrow> string \<Rightarrow> bool" where
  "cards_has s k = (map_of (cards s) k \<noteq> None)"

definition cards_size :: "engine \<Rightarrow> nat" where
  "cards_size s = length (cards s)"

text \<open>\<open>Map.set\<close> replaces the value of a present key in place and appends a new key.\<close>

definition cards_set :: "string \<Rightarrow> card_object \<Rightarrow> engine \<Rightarrow> engine" where
  "cards_set k v s = s\<lparr>cards := AList.update k v (cards s)\<rparr>"

definition cards_delete :: "string \<Rightarrow> engine \<Rightarrow> engine" where
  "cards_delete k s = s\<lparr>cards := AList.delete k (cards s)\<rparr>"

text \<open>An assignment to a field of the object stored under \<open>k\<close>.\<close>

definition modify_object :: "string \<Rightarrow> (card_object \<Rightarrow> card_object) \<Rightarrow> engine \<Rightarrow> engine" where
  "modify_object k f s = s\<lparr>cards := AList.map_entry k f (cards s)\<rparr>"

text \<open>
  \<open>document.getElementById\<close>: no element has the empty string as its identifier, so the
  empty string finds nothing.
\<close>

definition getElementById :: "(string \<Rightarrow> dom_element option) \<Rightarrow> string \<Rightarrow> dom_element option" where
  "getElementById doc k = (if k = [] then None else doc k)"

text \<open>\<open>new TWEEN.Tween(...).to(...).easing(...).onComplete(...).start()\<close> at time \<open>now\<close>.\<close>

definition start_tween ::
  "real \<Rightarrow> nat \<Rightarrow> tween_prop \<Rightarrow> (string \<times> real) list \<Rightarrow> real \<Rightarrow> easing \<Rightarrow> callback \<Rightarrow> engine \<Rightarrow> engine" where
  "start_tween now obj p d ms e cb s =
     s\<lparr> tweens := tweens s @ [\<lparr> tid = nextTid s, target = obj, property = p, destination = d, duration = ms,
                                 easingFn = e, startTime = now, onComplete = cb \<rparr>],
        nextTid := Suc (nextTid s) \<rparr>"

text \<open>\<open>tween.stop()\<close>: the tween leaves the group; stopping a tween that is not playing does nothing.\<close>

definition stop_tween :: "nat \<Rightarrow> engine \<Rightarrow> engine" where
  "stop_tween t s = s\<lparr>tweens := filter (\<lambda>tw. tid tw \<noteq> t) (tweens s)\<rparr>"

text \<open>\<open>object.userData.hoverTween?.stop?.()\<close>\<close>

definition stop_hoverTween :: "card_object \<Rightarrow> engine \<Rightarrow> engine" where
  "stop_hoverTween object s = (case hoverTween object of None \<Rightarrow> s | Some t \<Rightarrow> stop_tween t s)"

definition clearTimeout :: "nat \<Rightarrow> engine \<Rightarrow> engine" where
  "clearTimeout h s = s\<lparr>timers := filter (\<lambda>(h', due, k). h' \<noteq> h) (timers s)\<rparr>"

text \<open>\<open>setTimeout\<close> returns the handle \<open>nextTimer s\<close>; handles are positive, hence truthy.\<close>

definition setTimeout :: "real \<Rightarrow> string \<Rightarrow> engine \<Rightarrow> engine" where
  "setTimeout due k s = s\<lparr> timers := timers s @ [(nextTimer s, due, k)], nextTimer := Suc (nextTimer s) \<rparr>"

subsection \<open>Hover lift and drop\<close>

definition liftCard :: "real \<Rightarrow> string \<Rightarrow> engine \<Rightarrow> engine" where
  "liftCard now elementId s =
     (case cards_get s elementId of
        None \<Rightarrow> s
      | Some object \<Rightarrow>
          if hovered object then s
          else (case home object of
                  None \<Rightarrow> s
                | Some hm \<Rightarrow>
                    let s1 = modify_object elementId (\<lambda>ob. ob\<lparr>hovered := True\<rparr>) s;
                        focusPull = 0.55;
                        liftPos = [(''x'', home_x hm * (1 - focusPull)),
                                   (''y'', home_y hm + 32),
                                   (''z'', home_z hm * (1 - focusPull) + 180)];
                        liftRot = [(''x'', - pi / 2), (''y'', 0), (''z'', 0)];
                        s2 = stop_hoverTween object s1;
                        posTween = nextTid s2;
                        s3 = start_tween now (oid object) Position liftPos 240 Cubic_Out NoCallback s2;
                        s4 = start_tween now (oid object) Rotation liftRot 240 Cubic_Out NoCallback s3
                    in modify_object elementId (\<lambda>ob. ob\<lparr>hoverTween := Some posTween\<rparr>) s4))"

definition dropCard :: "real \<Rightarrow> string \<Rightarrow> bool \<Rightarrow> engine \<Rightarrow> engine" where
  "dropCard now elementId force s =
     (case cards_get s elementId of
        None \<Rightarrow> s
      | Some object \<Rightarrow>
          if \<not> force \<and> \<not> hovered object then s
          else (case home object of
                  None \<Rightarrow> s
                | Some hm \<Rightarrow>
                    let s1 = modify_object elementId (\<lambda>ob. ob\<lparr>hovered := False\<rparr>) s;
                        s2 = stop_hoverTween object s1;
                        posTween = nextTid s2;
                        s3 = start_tween now (oid object) Position
                               [(''x'', home_x hm), (''y'', home_y hm), (''z'', home_z hm)]
                               260 Cubic_Out NoCallback s2;
                        s4 = start_tween now (oid object) Rotation
                               [(''x'', home_rx hm), (''y'', home_ry hm), (''z'', home_rz hm)]
                               260 Cubic_Out NoCallback s3
                    in modify_object elementId (\<lambda>ob. ob\<lparr>hoverTween := Some posTween\<rparr>) s4))"

subsection \<open>The public operations\<close>

text \<open>\<open>new CSS3DObject(element)\<close>: a fresh object, visible, with empty \<open>userData\<close>.\<close>

definition new_CSS3DObject :: "string \<Rightarrow> engine \<Rightarrow> card_object" where
  "new_CSS3DObject elementId s =
     \<lparr> oid = nextOid s, element = elementId, home = None, hovered = False,
       visible = True, hoverTween = None \<rparr>"

text \<open>
  The state of \<open>addCard\<close> after \<open>this.scene.add(object)\<close> and
  \<open>this.cards.set(elementId, object)\<close>, for the element \<open>el\<close> that was found.
\<close>

definition addCard_tracked :: "string \<Rightarrow> dom_element \<Rightarrow> engine \<Rightarrow> engine" where
  "addCard_tracked elementId el s =
     (let s1 = s\<lparr> document := (document s)(elementId \<mapsto>
                     el\<lparr> inRenderer := True, display := ''block'', pointerEvents := ''auto'',
                         opacity := ''1'', visibility := ''visible'' \<rparr>),
                   console := console s @
                     [Log (''[CardEngine] Moved element '' @ elementId @ '' to renderer, parent:''),
                      Log (''[CardEngine] Created CSS3DObject for '' @ elementId)] \<rparr>;
          object = new_CSS3DObject elementId s1;
          s2 = s1\<lparr> scene := scene s1 @ [oid object], nextOid := Suc (nextOid s1) \<rparr>
      in cards_set elementId object s2)"

text \<open>
  \<open>addCard\<close>: \<open>index\<close> is \<open>this.cards.size\<close> read after the \<open>set\<close>. The object the tweens
  animate is the one just created, whose identity is \<open>nextOid s\<close>.
\<close>

definition addCard :: "real \<Rightarrow> string \<Rightarrow> engine \<Rightarrow> engine" where
  "addCard now elementId s =
     (case getElementById (document s) elementId of
        None \<Rightarrow> s\<lparr>console := console s @ [Error (''[CardEngine] Element not found: '' @ elementId)]\<rparr>
      | Some el \<Rightarrow>
          let s3 = addCard_tracked elementId el s;
              index = cards_size s3;
              t = computeStackTransform index;
              s4 = modify_object elementId (\<lambda>ob. ob\<lparr>home := Some (home_of t), hovered := False\<rparr>) s3;
              s5 = start_tween now (nextOid s) Position
                     [(''x'', targetX t), (''y'', targetY t), (''z'', targetZ t)]
                     1000 Exponential_Out NoCallback s4
          in start_tween now (nextOid s) Rotation
               [(''x'', targetRot_x t), (''y'', targetRot_y t), (''z'', targetRot_z t)]
               1000 Cubic_Out NoCallback s5)"

text \<open>\<open>rnd\<close> is the value of \<open>Math.random()\<close>.\<close>

definition moveToStack :: "real \<Rightarrow> real \<Rightarrow> string \<Rightarrow> engine \<Rightarrow> engine" where
  "moveToStack now rnd elementId s =
     (case cards_get s elementId of
        None \<Rightarrow> s
      | Some object \<Rightarrow>
          let stackX = 400;
              stackZ = - 200;
              s1 = start_tween now (oid object) Position
                     [(''x'', stackX), (''y'', 0), (''z'', stackZ)] 800 Back_In EmptyCallback s
          in start_tween now (oid object) Rotation [(''z'', rnd * 0.2)] 800 Linear_None NoCallback s1)"

definition discard :: "real \<Rightarrow> string \<Rightarrow> engine \<Rightarrow> engine" where
  "discard now elementId s =
     (case cards_get s elementId of
        None \<Rightarrow> s
      | Some object \<Rightarrow>
          let discardX = - 1000
          in start_tween now (oid object) Position
               [(''x'', discardX), (''y'', 0), (''z'', 0)] 600 Back_In
               (DiscardComplete (oid object) elementId) s)"

text \<open>The first half of \<open>setCardVisible\<close>: the forced drop of the card that is being hidden.\<close>

definition setCardVisible_drop :: "real \<Rightarrow> string \<Rightarrow> bool \<Rightarrow> engine \<Rightarrow> engine" where
  "setCardVisible_drop now elementId vis s =
     (if \<not> vis \<and> activeId (hoverState s) = Some elementId
      then (let s1 = dropCard now elementId True s
            in s1\<lparr>hoverState := (hoverState s1)\<lparr>activeId := None\<rparr>\<rparr>)
      else s)"

text \<open>
  The second half: \<open>object.visible\<close> and the style of \<open>object.element\<close>. Objects are
  values here, so the object is read again after the drop.
\<close>

definition setCardVisible_show :: "string \<Rightarrow> bool \<Rightarrow> engine \<Rightarrow> engine" where
  "setCardVisible_show elementId vis s =
     (case cards_get s elementId of
        None \<Rightarrow> s
      | Some object \<Rightarrow>
          let s1 = modify_object elementId (\<lambda>ob. ob\<lparr>visible := vis\<rparr>) s
          in (case document s1 (element object) of
                None \<Rightarrow> s1
              | Some el \<Rightarrow>
                  s1\<lparr>document := (document s1)(element object \<mapsto>
                       el\<lparr> display := (if vis then ''block'' else ''none''),
                           opacity := (if vis then ''1'' else ''0'') \<rparr>)\<rparr>))"

definition setCardVisible :: "real \<Rightarrow> string \<Rightarrow> bool arg \<Rightarrow> engine \<Rightarrow> engine" where
  "setCardVisible now elementId v s =
     (let vis = arg_or True v
      in case cards_get s elementId of
           None \<Rightarrow> s
         | Some object \<Rightarrow> setCardVisible_show elementId vis (setCardVisible_drop now elementId vis s))"

text \<open>The body of the \<open>forEach\<close> of \<open>restackVisible\<close> for one identifier and its position \<open>idx\<close>.\<close>

definition restack_one :: "real \<Rightarrow> string \<Rightarrow> nat \<Rightarrow> engine \<Rightarrow> engine" where
  "restack_one now elementId idx s =
     (case cards_get s elementId of
        None \<Rightarrow> s
      | Some object \<Rightarrow>
          let t = computeStackTransform (idx + 1);
              s1 = modify_object elementId (\<lambda>ob. ob\<lparr>home := Some (home_of t)\<rparr>) s;
              s2 = (if hovered object then dropCard now elementId True s1 else s1);
              s3 = start_tween now (oid object) Position
                     [(''x'', targetX t), (''y'', targetY t), (''z'', targetZ t)]
                     520 Cubic_Out NoCallback s2
          in start_tween now (oid object) Rotation
               [(''x'', targetRot_x t), (''y'', targetRot_y t), (''z'', targetRot_z t)]
               520 Cubic_Out NoCallback s3)"

fun restack_each :: "real \<Rightarrow> string list \<Rightarrow> nat \<Rightarrow> engine \<Rightarrow> engine" where
  "restack_each now [] idx s = s"
| "restack_each now (elementId # ids) idx s = restack_each now ids (Suc idx) (restack_one now elementId idx s)"

text \<open>
  The argument of \<open>restackVisible\<close> is an array of identifiers (\<open>Some\<close>) or something that
  is not an array (\<open>None\<close>); the default is the empty array.
\<close>

definition restackVisible :: "real \<Rightarrow> string list option arg \<Rightarrow> engine \<Rightarrow> engine" where
  "restackVisible now a s =
     (case arg_or (Some []) a of
        None \<Rightarrow> s
      | Some elementIds \<Rightarrow> restack_each now (filter (cards_has s) elementIds) 0 s)"

definition setFocus :: "jsnum arg \<Rightarrow> engine \<Rightarrow> engine" where
  "setFocus level s = s\<lparr>focusLevel := Math_max (Fin 0) (Math_min (Fin 1) (arg_or (Fin 0) level))\<rparr>"

definition setMotionEnabled :: "bool arg \<Rightarrow> engine \<Rightarrow> engine" where
  "setMotionEnabled enabled s = s\<lparr>prefersReducedMotion := \<not> arg_or True enabled\<rparr>"

subsection \<open>Pointer handlers and timers\<close>

definition onCardEnter_proceed :: "real \<Rightarrow> string \<Rightarrow> engine \<Rightarrow> engine" where
  "onCardEnter_proceed now elementId s =
     liftCard now elementId
       (s\<lparr>hoverState := (hoverState s)\<lparr>activeId := Some elementId,
                                         switchLockUntil := now + lockMs (hoverState s)\<rparr>\<rparr>)"

text \<open>The first statement of \<open>_onCardEnter\<close>: a pending release timeout is cleared.\<close>

definition cancel_leaveTimer :: "engine \<Rightarrow> engine" where
  "cancel_leaveTimer s =
     (case leaveTimer (hoverState s) of
        None \<Rightarrow> s
      | Some h \<Rightarrow> (let c = clearTimeout h s
                   in c\<lparr>hoverState := (hoverState c)\<lparr>leaveTimer := None\<rparr>\<rparr>))"

text \<open>
  \<open>_onCardEnter\<close>. The identifier in \<open>activeId\<close> is truthy when it is not the empty
  string.
\<close>

definition onCardEnter :: "real \<Rightarrow> string \<Rightarrow> engine \<Rightarrow> engine" where
  "onCardEnter now elementId s =
     (let s1 = cancel_leaveTimer s
      in case activeId (hoverState s1) of
           None \<Rightarrow> onCardEnter_proceed now elementId s1
         | Some active \<Rightarrow>
             if active \<noteq> [] \<and> active \<noteq> elementId
             then (if now < switchLockUntil (hoverState s1) then s1
                   else onCardEnter_proceed now elementId (dropCard now active True s1))
             else onCardEnter_proceed now elementId s1)"

text \<open>The bounding rectangle of an element, as the browser reports it.\<close>

record dom_rect =
  rect_left :: real
  rect_top :: real
  rect_right :: real
  rect_bottom :: real
  rect_width :: real
  rect_height :: real

text \<open>
  \<open>_onCardLeave\<close>: \<open>ev\<close> is the pointer position of the event (\<open>None\<close> when the handler is
  called without an event), \<open>rect\<close> the bounding rectangle of the card's element. The
  timeout is due \<open>releaseMs\<close> after \<open>now\<close>.
\<close>

definition onCardLeave :: "real \<Rightarrow> string \<Rightarrow> (real \<times> real) option \<Rightarrow> dom_rect \<Rightarrow> engine \<Rightarrow> engine" where
  "onCardLeave now elementId ev rect s =
     (if activeId (hoverState s) \<noteq> Some elementId then s
      else let margin = 24;
               inside = (case ev of
                           None \<Rightarrow> False
                         | Some (clientX, clientY) \<Rightarrow>
                             cards_get s elementId \<noteq> None \<and>
                             clientX \<ge> rect_left rect - margin \<and>
                             clientX \<le> rect_right rect + margin \<and>
                             clientY \<ge> rect_top rect - margin \<and>
                             clientY \<le> rect_bottom rect + margin)
           in if inside then s
              else let s1 = (case leaveTimer (hoverState s) of
                               None \<Rightarrow> s
                             | Some h \<Rightarrow> clearTimeout h s);
                       s2 = setTimeout (now + releaseMs (hoverState s1)) elementId s1
                   in s2\<lparr>hoverState := (hoverState s2)\<lparr>leaveTimer := Some (nextTimer s1)\<rparr>\<rparr>)"

text \<open>The callback of the release timeout, for the identifier it captured.\<close>

definition leaveTimeout_callback :: "real \<Rightarrow> string \<Rightarrow> engine \<Rightarrow> engine" where
  "leaveTimeout_callback now elementId s =
     (if activeId (hoverState s) = Some elementId
      then (let s1 = dropCard now elementId True s
            in s1\<lparr>hoverState := (hoverState s1)\<lparr>activeId := None\<rparr>\<rparr>)
      else s)"

text \<open>
  The browser runs the timeout with handle \<open>h\<close> when it is pending and due; a timeout runs
  once.
\<close>

definition timeout_fires :: "real \<Rightarrow> nat \<Rightarrow> engine \<Rightarrow> engine" where
  "timeout_fires now h s =
     (case find (\<lambda>(h', due, k). h' = h) (timers s) of
        None \<Rightarrow> s
      | Some (h', due, k) \<Rightarrow>
          if now < due then s else leaveTimeout_callback now k (clearTimeout h s))"

text \<open>\<open>updateTarget\<close> of \<open>_attachMotionHandlers\<close>; \<open>rect\<close> is the rectangle of the container.\<close>

definition updateTarget :: "real \<Rightarrow> real \<Rightarrow> dom_rect \<Rightarrow> engine \<Rightarrow> engine" where
  "updateTarget clientX clientY rect s =
     (if prefersReducedMotion s then s
      else if rect_width rect = 0 \<or> rect_height rect = 0 then s
      else let x = (clientX - rect_left rect) / rect_width rect;
               y = (clientY - rect_top rect) / rect_height rect
           in s\<lparr>parallaxTarget := \<lparr> off_x = Fin ((x - 0.5) * 2), off_z = Fin ((y - 0.5) * 2) \<rparr>\<rparr>)"

definition touchMove :: "(real \<times> real) option \<Rightarrow> dom_rect \<Rightarrow> engine \<Rightarrow> engine" where
  "touchMove touch rect s =
     (case touch of
        None \<Rightarrow> s
      | Some (clientX, clientY) \<Rightarrow> updateTarget clientX clientY rect s)"

text \<open>
  The two \<open>pointerleave\<close> listeners of the container, in the order \<open>init\<close> registers them:
  the one of \<open>_attachMotionHandlers\<close>, then the one that drops the hovered card.
\<close>

definition containerPointerLeave :: "real \<Rightarrow> engine \<Rightarrow> engine" where
  "containerPointerLeave now s =
     (let s1 = s\<lparr>parallaxTarget := \<lparr> off_x = Fin 0, off_z = Fin 0 \<rparr>\<rparr>
      in case activeId (hoverState s1) of
           None \<Rightarrow> s1
         | Some active \<Rightarrow>
             if active \<noteq> []
             then (let s2 = dropCard now active True s1
                   in s2\<lparr>hoverState := (hoverState s2)\<lparr>activeId := None\<rparr>\<rparr>)
             else s1)"

subsection \<open>The frame loop\<close>

text \<open>
  A tween that has started is complete at \<open>now\<close> when the elapsed share of its duration
  has reached 1 (or the duration is 0); the group then calls its completion callback and
  drops it.
\<close>

definition tween_complete :: "real \<Rightarrow> tween \<Rightarrow> bool" where
  "tween_complete now tw =
     (\<not> now < startTime tw \<and> (duration tw = 0 \<or> (now - startTime tw) / duration tw \<ge> 1))"

text \<open>
  The callbacks: the one of \<open>discard\<close> is
  \<open>this.scene.remove(object); this.cards.delete(elementId)\<close>.
\<close>

fun run_callback :: "callback \<Rightarrow> engine \<Rightarrow> engine" where
  "run_callback NoCallback s = s"
| "run_callback EmptyCallback s = s"
| "run_callback (DiscardComplete object elementId) s =
     cards_delete elementId (s\<lparr>scene := remove1 object (scene s)\<rparr>)"

text \<open>\<open>TWEEN.update()\<close>: the tweens of the group at the start of the update, in their order.\<close>

fun update_tweens :: "real \<Rightarrow> tween list \<Rightarrow> engine \<Rightarrow> engine" where
  "update_tweens now [] s = s"
| "update_tweens now (tw # tws) s =
     update_tweens now tws
       (if tween_complete now tw then stop_tween (tid tw) (run_callback (onComplete tw) s) else s)"

definition TWEEN_update :: "real \<Rightarrow> engine \<Rightarrow> engine" where
  "TWEEN_update now s = update_tweens now (tweens s) s"

definition updateCameraMotion :: "real \<Rightarrow> engine \<Rightarrow> engine" where
  "updateCameraMotion now s =
     (if prefersReducedMotion s then s
      else let focusFactor = js_sub (Fin 1) (js_mul (focusLevel s) (Fin 0.65));
               targetX = js_mul (js_mul (off_x (parallaxTarget s)) (Fin 40)) focusFactor;
               targetZ = js_mul (js_mul (off_z (parallaxTarget s)) (Fin 30)) focusFactor;
               px = js_add (off_x (parallax s)) (js_mul (js_sub targetX (off_x (parallax s))) (Fin 0.05));
               pz = js_add (off_z (parallax s)) (js_mul (js_sub targetZ (off_z (parallax s))) (Fin 0.05));
               breath = js_mul
                          (js_mul (Math_sin (js_add (js_mul (Fin now) (Fin (speed (breathing s))))
                                                    (Fin (phase (breathing s)))))
                                  (Fin (amp (breathing s))))
                          (js_add (Fin 0.4) (js_mul (js_sub (Fin 1) (focusLevel s)) (Fin 0.6)))
           in s\<lparr> parallax := \<lparr> off_x = px, off_z = pz \<rparr>,
                 camera_position := \<lparr> vec_x = js_add (vec_x (baseCamera s)) px,
                                      vec_y = js_add (vec_y (baseCamera s)) breath,
                                      vec_z = js_add (vec_z (baseCamera s)) pz \<rparr> \<rparr>)"

text \<open>\<open>animate\<close>: one frame at time \<open>now\<close> (rendering does not change the state).\<close>

definition animate :: "real \<Rightarrow> engine \<Rightarrow> engine" where
  "animate now s = updateCameraMotion now (TWEEN_update now s)"

subsection \<open>Construction\<close>

text \<open>
  The state after the field initialisers of the constructor and \<open>init\<close>: \<open>doc\<close> is the
  document, \<open>reduced\<close> the answer of the \<open>prefers-reduced-motion\<close> media query and \<open>rnd\<close>
  the \<open>Math.random()\<close> of the breathing phase. The camera is placed at the base position.
\<close>

definition init :: "(string \<Rightarrow> dom_element option) \<Rightarrow> bool \<Rightarrow> real \<Rightarrow> engine" where
  "init doc reduced rnd =
     \<lparr> cards = [],
       isInitialized = True,
       prefersReducedMotion = reduced,
       focusLevel = Fin 0,
       baseCamera = \<lparr> vec_x = Fin 0, vec_y = Fin 800, vec_z = Fin 1200 \<rparr>,
       parallax = \<lparr> off_x = Fin 0, off_z = Fin 0 \<rparr>,
       parallaxTarget = \<lparr> off_x = Fin 0, off_z = Fin 0 \<rparr>,
       breathing = \<lparr> phase = rnd * pi * 2, amp = 10, speed = 0.0006 \<rparr>,
       hoverState = \<lparr> activeId = None, leaveTimer = None, switchLockUntil = 0,
                      lockMs = 180, releaseMs = 140 \<rparr>,
       camera_position = \<lparr> vec_x = Fin 0, vec_y = Fin 800, vec_z = Fin 1200 \<rparr>,
       scene = [],
       tweens = [],
       timers = [],
       document = doc,
       console = [Log ''[CardEngine] Initialized 3D Stage''],
       nextOid = 0,
       nextTid = 0,
       nextTimer = 1 \<rparr>"

text \<open>The constructor ends with the first call of \<open>animate\<close>, at time \<open>now\<close>.\<close>

definition createCardEngine :: "(string \<Rightarrow> dom_element option) \<Rightarrow> bool \<Rightarrow> real \<Rightarrow> real \<Rightarrow> engine" where
  "createCardEngine doc reduced rnd now = animate now (init doc reduced rnd)"

subsection \<open>Events\<close>

text \<open>
  What the host and the browser can do to an engine: the public operations, the listeners
  the engine registered (on the cards, on the container), a due timeout, an animation
  frame, and the host putting an element into the document. Listener events may name any
  identifier at any time, which covers every delivery order of a browser.
\<close>

datatype event =
    AddCard real string
  | MoveToStack real real string
  | Discard real string
  | SetCardVisible real string "bool arg"
  | RestackVisible real "string list option arg"
  | SetFocus "jsnum arg"
  | SetMotionEnabled "bool arg"
  | CardPointerEnter real string
  | CardPointerLeave real string "(real \<times> real) option" dom_rect
  | Timeout real nat
  | ContainerPointerLeave real
  | PointerMove real real dom_rect
  | TouchMove "(real \<times> real) option" dom_rect
  | AnimationFrame real
  | HostCreatesElement string dom_element

fun step :: "event \<Rightarrow> engine \<Rightarrow> engine" where
  "step (AddCard now k) s = addCard now k s"
| "step (MoveToStack now rnd k) s = moveToStack now rnd k s"
| "step (Discard now k) s = discard now k s"
| "step (SetCardVisible now k v) s = setCardVisible now k v s"
| "step (RestackVisible now a) s = restackVisible now a s"
| "step (SetFocus level) s = setFocus level s"
| "step (SetMotionEnabled enabled) s = setMotionEnabled enabled s"
| "step (CardPointerEnter now k) s = onCardEnter now k s"
| "step (CardPointerLeave now k ev rect) s = onCardLeave now k ev rect s"
| "step (Timeout now h) s = timeout_fires now h s"
| "step (ContainerPointerLeave now) s = containerPointerLeave now s"
| "step (PointerMove clientX clientY rect) s = updateTarget clientX clientY rect s"
| "step (TouchMove touch rect) s = touchMove touch rect s"
| "step (AnimationFrame now) s = animate now s"
| "step (HostCreatesElement k el) s = s\<lparr>document := (document s)(k \<mapsto> el)\<rparr>"

definition run :: "event list \<Rightarrow> engine \<Rightarrow> engine" where
  "run evs s = fold step evs s"

subsection \<open>Invariants and reachable states\<close>

text \<open>
  The keys of the Map are distinct and never the empty string (no element is found under
  it); every tracked object has its home slot; a tracked object whose \<open>hovered\<close> flag is
  set is stored under the identifier \<open>a\<close> (for \<open>hover_ok\<close>: under \<open>activeId\<close>).
\<close>

definition keys_ok :: "engine \<Rightarrow> bool" where
  "keys_ok s \<longleftrightarrow> distinct (map fst (cards s)) \<and> [] \<notin> set (map fst (cards s))"

definition homes_ok :: "engine \<Rightarrow> bool" where
  "homes_ok s \<longleftrightarrow> (\<forall>k c. map_of (cards s) k = Some c \<longrightarrow> home c \<noteq> None)"

definition only_hovered :: "string option \<Rightarrow> engine \<Rightarrow> bool" where
  "only_hovered a s \<longleftrightarrow> (\<forall>k c. map_of (cards s) k = Some c \<longrightarrow> hovered c \<longrightarrow> a = Some k)"

definition hover_ok :: "engine \<Rightarrow> bool" where
  "hover_ok s \<longleftrightarrow> only_hovered (activeId (hoverState s)) s"

text \<open>The states an engine can be in: a constructed engine, after any sequence of events.\<close>

inductive reachable :: "engine \<Rightarrow> bool" where
  created: "reachable (createCardEngine doc reduced rnd now)"
| stepped: "reachable s \<Longrightarrow> reachable (step e s)"

subsection \<open>Concrete scenarios\<close>

text \<open>
  A document with two staged elements \<open>a\<close> and \<open>b\<close>, an engine constructed on it at time 0
  with motion enabled, the two cards dealt, and the pointer entering card \<open>a\<close> at time 10.
\<close>

definition demo_element :: dom_element where
  "demo_element = \<lparr> display = ''none'', pointerEvents = ''none'', opacity = ''0'',
                     visibility = ''hidden'', inRenderer = False \<rparr>"

definition demo_document :: "string \<Rightarrow> dom_element option" where
  "demo_document = [''a'' \<mapsto> demo_element, ''b'' \<mapsto> demo_element]"

definition demo_engine :: engine where
  "demo_engine = createCardEngine demo_document False 0 0"

definition demo_two_cards :: engine where
  "demo_two_cards = run [AddCard 0 ''a'', AddCard 0 ''b''] demo_engine"

definition demo_hovered :: engine where
  "demo_hovered = run [CardPointerEnter 10 ''a''] demo_two_cards"

text \<open>The events that switch motion on: \<open>setMotionEnabled\<close> with a truthy or no argument.\<close>

fun enables_motion :: "event \<Rightarrow> bool" where
  "enables_motion (SetMotionEnabled enabled) = arg_or True enabled"
| "enables_motion e = False"

text \<open>
  A container rectangle; the engine after a pointer move to the right edge and one frame;
  that engine with motion then disabled and two more frames; the hovered engine after
  the pointer left card \<open>a\<close> far outside its rectangle at time 20.
\<close>

definition demo_rect :: dom_rect where
  "demo_rect = \<lparr> rect_left = 0, rect_top = 0, rect_right = 100, rect_bottom = 100,
                  rect_width = 100, rect_height = 100 \<rparr>"

definition demo_moved :: engine where
  "demo_moved = run [PointerMove 100 50 demo_rect, AnimationFrame 0] demo_engine"

definition demo_frozen :: engine where
  "demo_frozen = run [SetMotionEnabled (Given False), AnimationFrame 16, AnimationFrame 32] demo_moved"

definition demo_leaving :: engine where
  "demo_leaving = run [CardPointerLeave 20 ''a'' (Some (1000, 1000)) demo_rect] demo_hovered"

text \<open>
  For the proofs about \<open>restackVisible\<close>: the home slot that its loop over \<open>ids\<close>, started
  at position \<open>idx\<close>, leaves for the identifier \<open>k\<close> whose slot was \<open>h\<close>.
\<close>

fun slot_home :: "string list \<Rightarrow> nat \<Rightarrow> string \<Rightarrow> home_transform option \<Rightarrow> home_transform option" where
  "slot_home [] idx k h = h"
| "slot_home (x # xs) idx k h =
     slot_home xs (Suc idx) k (if x = k then Some (home_of (computeStackTransform (idx + 1))) else h)"

text \<open>
  Object identities. \<open>oid_at\<close> is the identity of the object tracked under an identifier.
  In a reachable state (\<open>oids_ok\<close>): tracked objects are in the scene and older than
  \<open>nextOid\<close>, no object is tracked under two identifiers, the scene holds every object
  once, and the object captured by a pending \<open>discard\<close> callback is tracked, if at all,
  under the identifier the callback captured. \<open>benign s s'\<close> describes a step that keeps
  the tracked identities, the scene and \<open>nextOid\<close> and starts no \<open>discard\<close> callback.
\<close>

definition oid_at :: "engine \<Rightarrow> string \<Rightarrow> nat option" where
  "oid_at s k = map_option oid (map_of (cards s) k)"

definition callback_ok :: "engine \<Rightarrow> callback \<Rightarrow> bool" where
  "callback_ok s cb =
     (case cb of
        DiscardComplete ob k \<Rightarrow> ob < nextOid s \<and> (\<forall>j. oid_at s j = Some ob \<longrightarrow> j = k)
      | _ \<Rightarrow> True)"

definition oids_ok :: "engine \<Rightarrow> bool" where
  "oids_ok s \<longleftrightarrow>
     (\<forall>k ob. oid_at s k = Some ob \<longrightarrow> ob < nextOid s \<and> ob \<in> set (scene s)) \<and>
     (\<forall>k j ob. oid_at s k = Some ob \<longrightarrow> oid_at s j = Some ob \<longrightarrow> k = j) \<and>
     distinct (scene s) \<and> (\<forall>ob\<in>set (scene s). ob < nextOid s) \<and>
     (\<forall>tw\<in>set (tweens s). callback_ok s (onComplete tw))"

definition benign :: "engine \<Rightarrow> engine \<Rightarrow> bool" where
  "benign s s' \<longleftrightarrow>
     (\<forall>k. oid_at s' k = oid_at s k) \<and> scene s' = scene s \<and> nextOid s' = nextOid s \<and>
     (\<forall>tw\<in>set (tweens s'). tw \<in> set (tweens s) \<or> onComplete tw = NoCallback \<or> onComplete tw = EmptyCallback)"

text \<open>
  The \<open>index\<close> that \<open>addCard\<close> passes to \<open>_computeStackTransform\<close> in the state \<open>s\<close>: the size
  of the Map after the \<open>set\<close>; none when no element is found.
\<close>

definition addCard_index :: "string \<Rightarrow> engine \<Rightarrow> nat option" where
  "addCard_index elementId s =
     map_option (\<lambda>el. cards_size (addCard_tracked elementId el s))
       (getElementById (document s) elementId)"

text \<open>Tween identities: the tweens of the group have distinct identities, older than \<open>nextTid\<close>.\<close>

definition tids_ok :: "engine \<Rightarrow> bool" where
  "tids_ok s \<longleftrightarrow> distinct (map tid (tweens s)) \<and> (\<forall>tw\<in>set (tweens s). tid tw < nextTid s)"

text \<open>Whether a tween is a discard animation of the identifier \<open>k\<close>.\<close>

fun discards :: "string \<Rightarrow> tween \<Rightarrow> bool" where
  "discards k tw = (case onComplete tw of DiscardComplete ob j \<Rightarrow> j = k | _ \<Rightarrow> False)"

text \<open>
  The two cards again: \<open>a\<close> is discarded at time 0, the pointer enters it at time 500, and
  the frame at time 600 completes the discard animation.
\<close>

definition demo_discarded :: engine where
  "demo_discarded =
     run [Discard 0 ''a'', CardPointerEnter 500 ''a'', AnimationFrame 600] demo_two_cards"

subsection \<open>The public surface and what it throws\<close>

text \<open>
  The class contains no \<open>try\<close> and no \<open>throw\<close>: a call of a public operation throws
  exactly when a collaborator throws, and the exception then reaches the caller. The
  methods test every value that may be missing before they use it (the Map entry, the
  element, the home slot, the array argument); each test is a branch of the functions
  above. For string identifiers and a document of HTML elements this leaves one call of a
  collaborator that can throw: \<open>this.renderer.domElement.appendChild(element)\<close> in
  \<open>addCard\<close>. The DOM refuses to append an element to itself or to one of its own
  descendants with a \<open>HierarchyRequestError\<close>, and \<open>init\<close> has appended the render surface
  (\<open>renderer.domElement\<close>) to the container.
\<close>

datatype exception = HierarchyRequestError

text \<open>
  Where the render surface hangs in the document: \<open>containerId\<close> is the identifier of the
  container, the argument of the constructor; \<open>around\<close> lists the identifiers of the other
  elements that the surface cannot be appended to, the elements around the container
  (and the surface itself, should the host give it an identifier).
\<close>

record page =
  containerId :: string
  around :: "string list"

definition contains_surface :: "page \<Rightarrow> string \<Rightarrow> bool" where
  "contains_surface p k \<longleftrightarrow> k = containerId p \<or> k \<in> set (around p)"

text \<open>
  The outcome of a call: it returns, or an exception reaches the caller. Either way the
  engine is left in a state.
\<close>

datatype outcome = Returns engine | Throws exception engine

text \<open>\<open>this.renderer.domElement.appendChild(element)\<close> for the element found under \<open>elementId\<close>.\<close>

definition appendChild :: "page \<Rightarrow> string \<Rightarrow> exception option" where
  "appendChild p elementId =
     (if contains_surface p elementId then Some HierarchyRequestError else None)"

text \<open>
  A call of \<open>addCard\<close>. Without an element the method logs and returns. With an element,
  \<open>appendChild\<close> is the first statement that follows: when it throws, nothing has been
  assigned yet; when it returns, the method runs to its end, which is the function
  \<open>addCard\<close> above. An \<open>AddCard\<close> event stands for a call that returns.
\<close>

definition addCard_call :: "page \<Rightarrow> real \<Rightarrow> string \<Rightarrow> engine \<Rightarrow> outcome" where
  "addCard_call p now elementId s =
     (case getElementById (document s) elementId of
        None \<Rightarrow> Returns (addCard now elementId s)
      | Some el \<Rightarrow>
          (case appendChild p elementId of
             Some e \<Rightarrow> Throws e s
           | None \<Rightarrow> Returns (addCard now elementId s)))"

text \<open>
  The seven public operations with their arguments, and a call of one of them at time
  \<open>now\<close>, with \<open>rnd\<close> the value of \<open>Math.random()\<close>.
\<close>

datatype operation =
    Op_addCard string
  | Op_moveToStack string
  | Op_discard string
  | Op_setCardVisible string "bool arg"
  | Op_restackVisible "string list option arg"
  | Op_setFocus "jsnum arg"
  | Op_setMotionEnabled "bool arg"

fun call :: "page \<Rightarrow> real \<Rightarrow> real \<Rightarrow> operation \<Rightarrow> engine \<Rightarrow> outcome" where
  "call p now rnd (Op_addCard k) s = addCard_call p now k s"
| "call p now rnd (Op_moveToStack k) s = Returns (moveToStack now rnd k s)"
| "call p now rnd (Op_discard k) s = Returns (discard now k s)"
| "call p now rnd (Op_setCardVisible k v) s = Returns (setCardVisible now k v s)"
| "call p now rnd (Op_restackVisible a) s = Returns (restackVisible now a s)"
| "call p now rnd (Op_setFocus level) s = Returns (setFocus level s)"
| "call p now rnd (Op_setMotionEnabled enabled) s = Returns (setMotionEnabled enabled s)"

text \<open>
  A page whose container has the identifier \<open>stage\<close>, and an engine constructed on it;
  the document holds the container and the two staged elements \<open>a\<close> and \<open>b\<close>.
\<close>

definition demo_container :: dom_element where
  "demo_container = \<lparr> display = ''block'', pointerEvents = ''auto'', opacity = ''1'',
                       visibility = ''visible'', inRenderer = False \<rparr>"

definition demo_page :: page where
  "demo_page = \<lparr> containerId = ''stage'', around = [] \<rparr>"

definition demo_staged :: engine where
  "demo_staged = createCardEngine (demo_document(''stage'' \<mapsto> demo_container)) False 0 0"

section \<open>Basic facts\<close>

subsection \<open>Which fields an operation leaves alone\<close>

lemma keys_map_entry [simp]: "map fst (AList.map_entry k f al) = map fst al"
  by (induct al) auto

lemma length_AList_update:
  "length (AList.update k v al) = (if k \<in> set (map fst al) then length al else Suc (length al))"
  by (induct al) auto

lemma modify_object_frame [simp]:
  "isInitialized (modify_object k f s) = isInitialized s"
  "prefersReducedMotion (modify_object k f s) = prefersReducedMotion s"
  "focusLevel (modify_object k f s) = focusLevel s"
  "baseCamera (modify_object k f s) = baseCamera s"
  "parallax (modify_object k f s) = parallax s"
  "parallaxTarget (modify_object k f s) = parallaxTarget s"
  "breathing (modify_object k f s) = breathing s"
  "hoverState (modify_object k f s) = hoverState s"
  "camera_position (modify_object k f s) = camera_position s"
  "scene (modify_object k f s) = scene s"
  "tweens (modify_object k f s) = tweens s"
  "timers (modify_object k f s) = timers s"
  "document (modify_object k f s) = document s"
  "console (modify_object k f s) = console s"
  "nextOid (modify_object k f s) = nextOid s"
  "nextTid (modify_object k f s) = nextTid s"
  "nextTimer (modify_object k f s) = nextTimer s"
  by (simp_all add: modify_object_def)

lemma cards_set_frame [simp]:
  "isInitialized (cards_set k v s) = isInitialized s"
  "prefersReducedMotion (cards_set k v s) = prefersReducedMotion s"
  "focusLevel (cards_set k v s) = focusLevel s"
  "baseCamera (cards_set k v s) = baseCamera s"
  "parallax (cards_set k v s) = parallax s"
  "parallaxTarget (cards_set k v s) = parallaxTarget s"
  "breathing (cards_set k v s) = breathing s"
  "hoverState (cards_set k v s) = hoverState s"
  "camera_position (cards_set k v s) = camera_position s"
  "scene (cards_set k v s) = scene s"
  "tweens (cards_set k v s) = tweens s"
  "timers (cards_set k v s) = timers s"
  "document (cards_set k v s) = document s"
  "console (cards_set k v s) = console s"
  "nextOid (cards_set k v s) = nextOid s"
  "nextTid (cards_set k v s) = nextTid s"
  "nextTimer (cards_set k v s) = nextTimer s"
  by (simp_all add: cards_set_def)

lemma cards_delete_frame [simp]:
  "isInitialized (cards_delete k s) = isInitialized s"
  "prefersReducedMotion (cards_delete k s) = prefersReducedMotion s"
  "focusLevel (cards_delete k s) = focusLevel s"
  "baseCamera (cards_delete k s) = baseCamera s"
  "parallax (cards_delete k s) = parallax s"
  "parallaxTarget (cards_delete k s) = parallaxTarget s"
  "breathing (cards_delete k s) = breathing s"
  "hoverState (cards_delete k s) = hoverState s"
  "camera_position (cards_delete k s) = camera_position s"
  "scene (cards_delete k s) = scene s"
  "tweens (cards_delete k s) = tweens s"
  "timers (cards_delete k s) = timers s"
  "document (cards_delete k s) = document s"
  "console (cards_delete k s) = console s"
  "nextOid (cards_delete k s) = nextOid s"
  "nextTid (cards_delete k s) = nextTid s"
  "nextTimer (cards_delete k s) = nextTimer s"
  by (simp_all add: cards_delete_def)

lemma start_tween_frame [simp]:
  "cards (start_tween now ob p d ms e cb s) = cards s"
  "isInitialized (start_tween now ob p d ms e cb s) = isInitialized s"
  "prefersReducedMotion (start_tween now ob p d ms e cb s) = prefersReducedMotion s"
  "focusLevel (start_tween now ob p d ms e cb s) = focusLevel s"
  "baseCamera (start_tween now ob p d ms e cb s) = baseCamera s"
  "parallax (start_tween now ob p d ms e cb s) = parallax s"
  "parallaxTarget (start_tween now ob p d ms e cb s) = parallaxTarget s"
  "breathing (start_tween now ob p d ms e cb s) = breathing s"
  "hoverState (start_tween now ob p d ms e cb s) = hoverState s"
  "camera_position (start_tween now ob p d ms e cb s) = camera_position s"
  "scene (start_tween now ob p d ms e cb s) = scene s"
  "timers (start_tween now ob p d ms e cb s) = timers s"
  "document (start_tween now ob p d ms e cb s) = document s"
  "console (start_tween now ob p d ms e cb s) = console s"
  "nextOid (start_tween now ob p d ms e cb s) = nextOid s"
  "nextTimer (start_tween now ob p d ms e cb s) = nextTimer s"
  by (simp_all add: start_tween_def)

lemma stop_tween_frame [simp]:
  "cards (stop_tween t s) = cards s"
  "isInitialized (stop_tween t s) = isInitialized s"
  "prefersReducedMotion (stop_tween t s) = prefersReducedMotion s"
  "focusLevel (stop_tween t s) = focusLevel s"
  "baseCamera (stop_tween t s) = baseCamera s"
  "parallax (stop_tween t s) = parallax s"
  "parallaxTarget (stop_tween t s) = parallaxTarget s"
  "breathing (stop_tween t s) = breathing s"
  "hoverState (stop_tween t s) = hoverState s"
  "camera_position (stop_tween t s) = camera_position s"
  "scene (stop_tween t s) = scene s"
  "timers (stop_tween t s) = timers s"
  "document (stop_tween t s) = document s"
  "console (stop_tween t s) = console s"
  "nextOid (stop_tween t s) = nextOid s"
  "nextTid (stop_tween t s) = nextTid s"
  "nextTimer (stop_tween t s) = nextTimer s"
  by (simp_all add: stop_tween_def)

lemma stop_hoverTween_frame [simp]:
  "cards (stop_hoverTween c s) = cards s"
  "isInitialized (stop_hoverTween c s) = isInitialized s"
  "prefersReducedMotion (stop_hoverTween c s) = prefersReducedMotion s"
  "focusLevel (stop_hoverTween c s) = focusLevel s"
  "baseCamera (stop_hoverTween c s) = baseCamera s"
  "parallax (stop_hoverTween c s) = parallax s"
  "parallaxTarget (stop_hoverTween c s) = parallaxTarget s"
  "breathing (stop_hoverTween c s) = breathing s"
  "hoverState (stop_hoverTween c s) = hoverState s"
  "camera_position (stop_hoverTween c s) = camera_position s"
  "scene (stop_hoverTween c s) = scene s"
  "timers (stop_hoverTween c s) = timers s"
  "document (stop_hoverTween c s) = document s"
  "console (stop_hoverTween c s) = console s"
  "nextOid (stop_hoverTween c s) = nextOid s"
  "nextTid (stop_hoverTween c s) = nextTid s"
  "nextTimer (stop_hoverTween c s) = nextTimer s"
  by (simp_all add: stop_hoverTween_def split: option.splits)

lemma clearTimeout_frame [simp]:
  "cards (clearTimeout h s) = cards s"
  "isInitialized (clearTimeout h s) = isInitialized s"
  "prefersReducedMotion (clearTimeout h s) = prefersReducedMotion s"
  "focusLevel (clearTimeout h s) = focusLevel s"
  "baseCamera (clearTimeout h s) = baseCamera s"
  "parallax (clearTimeout h s) = parallax s"
  "parallaxTarget (clearTimeout h s) = parallaxTarget s"
  "breathing (clearTimeout h s) = breathing s"
  "hoverState (clearTimeout h s) = hoverState s"
  "camera_position (clearTimeout h s) = camera_position s"
  "scene (clearTimeout h s) = scene s"
  "tweens (clearTimeout h s) = tweens s"
  "document (clearTimeout h s) = document s"
  "console (clearTimeout h s) = console s"
  "nextOid (clearTimeout h s) = nextOid s"
  "nextTid (clearTimeout h s) = nextTid s"
  "nextTimer (clearTimeout h s) = nextTimer s"
  by (simp_all add: clearTimeout_def)

lemma setTimeout_frame [simp]:
  "cards (setTimeout due k s) = cards s"
  "isInitialized (setTimeout due k s) = isInitialized s"
  "prefersReducedMotion (setTimeout due k s) = prefersReducedMotion s"
  "focusLevel (setTimeout due k s) = focusLevel s"
  "baseCamera (setTimeout due k s) = baseCamera s"
  "parallax (setTimeout due k s) = parallax s"
  "parallaxTarget (setTimeout due k s) = parallaxTarget s"
  "breathing (setTimeout due k s) = breathing s"
  "hoverState (setTimeout due k s) = hoverState s"
  "camera_position (setTimeout due k s) = camera_position s"
  "scene (setTimeout due k s) = scene s"
  "tweens (setTimeout due k s) = tweens s"
  "document (setTimeout due k s) = document s"
  "console (setTimeout due k s) = console s"
  "nextOid (setTimeout due k s) = nextOid s"
  "nextTid (setTimeout due k s) = nextTid s"
  by (simp_all add: setTimeout_def)

lemma dropCard_frame [simp]:
  "isInitialized (dropCard now k f s) = isInitialized s"
  "prefersReducedMotion (dropCard now k f s) = prefersReducedMotion s"
  "focusLevel (dropCard now k f s) = focusLevel s"
  "baseCamera (dropCard now k f s) = baseCamera s"
  "parallax (dropCard now k f s) = parallax s"
  "parallaxTarget (dropCard now k f s) = parallaxTarget s"
  "breathing (dropCard now k f s) = breathing s"
  "hoverState (dropCard now k f s) = hoverState s"
  "camera_position (dropCard now k f s) = camera_position s"
  "scene (dropCard now k f s) = scene s"
  "timers (dropCard now k f s) = timers s"
  "document (dropCard now k f s) = document s"
  "console (dropCard now k f s) = console s"
  "nextOid (dropCard now k f s) = nextOid s"
  "nextTimer (dropCard now k f s) = nextTimer s"
  by (simp_all add: dropCard_def Let_def split: option.splits)

lemma liftCard_frame [simp]:
  "isInitialized (liftCard now k s) = isInitialized s"
  "prefersReducedMotion (liftCard now k s) = prefersReducedMotion s"
  "focusLevel (liftCard now k s) = focusLevel s"
  "baseCamera (liftCard now k s) = baseCamera s"
  "parallax (liftCard now k s) = parallax s"
  "parallaxTarget (liftCard now k s) = parallaxTarget s"
  "breathing (liftCard now k s) = breathing s"
  "hoverState (liftCard now k s) = hoverState s"
  "camera_position (liftCard now k s) = camera_position s"
  "scene (liftCard now k s) = scene s"
  "timers (liftCard now k s) = timers s"
  "document (liftCard now k s) = document s"
  "console (liftCard now k s) = console s"
  "nextOid (liftCard now k s) = nextOid s"
  "nextTimer (liftCard now k s) = nextTimer s"
  by (simp_all add: liftCard_def Let_def split: option.splits)

lemma addCard_frame [simp]:
  "isInitialized (addCard now k s) = isInitialized s"
  "prefersReducedMotion (addCard now k s) = prefersReducedMotion s"
  "focusLevel (addCard now k s) = focusLevel s"
  "baseCamera (addCard now k s) = baseCamera s"
  "parallax (addCard now k s) = parallax s"
  "parallaxTarget (addCard now k s) = parallaxTarget s"
  "breathing (addCard now k s) = breathing s"
  "hoverState (addCard now k s) = hoverState s"
  "camera_position (addCard now k s) = camera_position s"
  "timers (addCard now k s) = timers s"
  "nextTimer (addCard now k s) = nextTimer s"
  by (simp_all add: addCard_def addCard_tracked_def Let_def split: option.splits)

lemma moveToStack_frame [simp]:
  "cards (moveToStack now rnd k s) = cards s"
  "isInitialized (moveToStack now rnd k s) = isInitialized s"
  "prefersReducedMotion (moveToStack now rnd k s) = prefersReducedMotion s"
  "focusLevel (moveToStack now rnd k s) = focusLevel s"
  "baseCamera (moveToStack now rnd k s) = baseCamera s"
  "parallax (moveToStack now rnd k s) = parallax s"
  "parallaxTarget (moveToStack now rnd k s) = parallaxTarget s"
  "breathing (moveToStack now rnd k s) = breathing s"
  "hoverState (moveToStack now rnd k s) = hoverState s"
  "camera_position (moveToStack now rnd k s) = camera_position s"
  "scene (moveToStack now rnd k s) = scene s"
  "timers (moveToStack now rnd k s) = timers s"
  "document (moveToStack now rnd k s) = document s"
  "console (moveToStack now rnd k s) = console s"
  "nextOid (moveToStack now rnd k s) = nextOid s"
  "nextTimer (moveToStack now rnd k s) = nextTimer s"
  by (simp_all add: moveToStack_def Let_def split: option.splits)

lemma discard_frame [simp]:
  "cards (discard now k s) = cards s"
  "isInitialized (discard now k s) = isInitialized s"
  "prefersReducedMotion (discard now k s) = prefersReducedMotion s"
  "focusLevel (discard now k s) = focusLevel s"
  "baseCamera (discard now k s) = baseCamera s"
  "parallax (discard now k s) = parallax s"
  "parallaxTarget (discard now k s) = parallaxTarget s"
  "breathing (discard now k s) = breathing s"
  "hoverState (discard now k s) = hoverState s"
  "camera_position (discard now k s) = camera_position s"
  "scene (discard now k s) = scene s"
  "timers (discard now k s) = timers s"
  "document (discard now k s) = document s"
  "console (discard now k s) = console s"
  "nextOid (discard now k s) = nextOid s"
  "nextTimer (discard now k s) = nextTimer s"
  by (simp_all add: discard_def Let_def split: option.splits)

lemma setCardVisible_frame [simp]:
  "isInitialized (setCardVisible now k v s) = isInitialized s"
  "prefersReducedMotion (setCardVisible now k v s) = prefersReducedMotion s"
  "focusLevel (setCardVisible now k v s) = focusLevel s"
  "baseCamera (setCardVisible now k v s) = baseCamera s"
  "parallax (setCardVisible now k v s) = parallax s"
  "parallaxTarget (setCardVisible now k v s) = parallaxTarget s"
  "breathing (setCardVisible now k v s) = breathing s"
  "camera_position (setCardVisible now k v s) = camera_position s"
  "scene (setCardVisible now k v s) = scene s"
  "timers (setCardVisible now k v s) = timers s"
  "console (setCardVisible now k v s) = console s"
  "nextOid (setCardVisible now k v s) = nextOid s"
  "nextTimer (setCardVisible now k v s) = nextTimer s"
  by (simp_all add: setCardVisible_def setCardVisible_show_def setCardVisible_drop_def Let_def split: option.splits)

lemma restack_one_frame [simp]:
  "isInitialized (restack_one now k idx s) = isInitialized s"
  "prefersReducedMotion (restack_one now k idx s) = prefersReducedMotion s"
  "focusLevel (restack_one now k idx s) = focusLevel s"
  "baseCamera (restack_one now k idx s) = baseCamera s"
  "parallax (restack_one now k idx s) = parallax s"
  "parallaxTarget (restack_one now k idx s) = parallaxTarget s"
  "breathing (restack_one now k idx s) = breathing s"
  "hoverState (restack_one now k idx s) = hoverState s"
  "camera_position (restack_one now k idx s) = camera_position s"
  "scene (restack_one now k idx s) = scene s"
  "timers (restack_one now k idx s) = timers s"
  "document (restack_one now k idx s) = document s"
  "console (restack_one now k idx s) = console s"
  "nextOid (restack_one now k idx s) = nextOid s"
  "nextTimer (restack_one now k idx s) = nextTimer s"
  by (simp_all add: restack_one_def Let_def split: option.splits)

lemma restack_each_frame [simp]:
  "isInitialized (restack_each now ids idx s) = isInitialized s"
  "prefersReducedMotion (restack_each now ids idx s) = prefersReducedMotion s"
  "focusLevel (restack_each now ids idx s) = focusLevel s"
  "baseCamera (restack_each now ids idx s) = baseCamera s"
  "parallax (restack_each now ids idx s) = parallax s"
  "parallaxTarget (restack_each now ids idx s) = parallaxTarget s"
  "breathing (restack_each now ids idx s) = breathing s"
  "hoverState (restack_each now ids idx s) = hoverState s"
  "camera_position (restack_each now ids idx s) = camera_position s"
  "scene (restack_each now ids idx s) = scene s"
  "timers (restack_each now ids idx s) = timers s"
  "document (restack_each now ids idx s) = document s"
  "console (restack_each now ids idx s) = console s"
  "nextOid (restack_each now ids idx s) = nextOid s"
  "nextTimer (restack_each now ids idx s) = nextTimer s"
  by (induction ids arbitrary: idx s; simp)+

lemma restackVisible_frame [simp]:
  "isInitialized (restackVisible now a s) = isInitialized s"
  "prefersReducedMotion (restackVisible now a s) = prefersReducedMotion s"
  "focusLevel (restackVisible now a s) = focusLevel s"
  "baseCamera (restackVisible now a s) = baseCamera s"
  "parallax (restackVisible now a s) = parallax s"
  "parallaxTarget (restackVisible now a s) = parallaxTarget s"
  "breathing (restackVisible now a s) = breathing s"
  "hoverState (restackVisible now a s) = hoverState s"
  "camera_position (restackVisible now a s) = camera_position s"
  "scene (restackVisible now a s) = scene s"
  "timers (restackVisible now a s) = timers s"
  "document (restackVisible now a s) = document s"
  "console (restackVisible now a s) = console s"
  "nextOid (restackVisible now a s) = nextOid s"
  "nextTimer (restackVisible now a s) = nextTimer s"
  by (simp_all add: restackVisible_def split: option.splits)

lemma setFocus_frame [simp]:
  "cards (setFocus level s) = cards s"
  "isInitialized (setFocus level s) = isInitialized s"
  "prefersReducedMotion (setFocus level s) = prefersReducedMotion s"
  "baseCamera (setFocus level s) = baseCamera s"
  "parallax (setFocus level s) = parallax s"
  "parallaxTarget (setFocus level s) = parallaxTarget s"
  "breathing (setFocus level s) = breathing s"
  "hoverState (setFocus level s) = hoverState s"
  "camera_position (setFocus level s) = camera_position s"
  "scene (setFocus level s) = scene s"
  "tweens (setFocus level s) = tweens s"
  "timers (setFocus level s) = timers s"
  "document (setFocus level s) = document s"
  "console (setFocus level s) = console s"
  "nextOid (setFocus level s) = nextOid s"
  "nextTid (setFocus level s) = nextTid s"
  "nextTimer (setFocus level s) = nextTimer s"
  by (simp_all add: setFocus_def)

lemma setMotionEnabled_frame [simp]:
  "cards (setMotionEnabled enabled s) = cards s"
  "isInitialized (setMotionEnabled enabled s) = isInitialized s"
  "focusLevel (setMotionEnabled enabled s) = focusLevel s"
  "baseCamera (setMotionEnabled enabled s) = baseCamera s"
  "parallax (setMotionEnabled enabled s) = parallax s"
  "parallaxTarget (setMotionEnabled enabled s) = parallaxTarget s"
  "breathing (setMotionEnabled enabled s) = breathing s"
  "hoverState (setMotionEnabled enabled s) = hoverState s"
  "camera_position (setMotionEnabled enabled s) = camera_position s"
  "scene (setMotionEnabled enabled s) = scene s"
  "tweens (setMotionEnabled enabled s) = tweens s"
  "timers (setMotionEnabled enabled s) = timers s"
  "document (setMotionEnabled enabled s) = document s"
  "console (setMotionEnabled enabled s) = console s"
  "nextOid (setMotionEnabled enabled s) = nextOid s"
  "nextTid (setMotionEnabled enabled s) = nextTid s"
  "nextTimer (setMotionEnabled enabled s) = nextTimer s"
  by (simp_all add: setMotionEnabled_def)

lemma cancel_leaveTimer_frame [simp]:
  "cards (cancel_leaveTimer s) = cards s"
  "isInitialized (cancel_leaveTimer s) = isInitialized s"
  "prefersReducedMotion (cancel_leaveTimer s) = prefersReducedMotion s"
  "focusLevel (cancel_leaveTimer s) = focusLevel s"
  "baseCamera (cancel_leaveTimer s) = baseCamera s"
  "parallax (cancel_leaveTimer s) = parallax s"
  "parallaxTarget (cancel_leaveTimer s) = parallaxTarget s"
  "breathing (cancel_leaveTimer s) = breathing s"
  "camera_position (cancel_leaveTimer s) = camera_position s"
  "scene (cancel_leaveTimer s) = scene s"
  "tweens (cancel_leaveTimer s) = tweens s"
  "document (cancel_leaveTimer s) = document s"
  "console (cancel_leaveTimer s) = console s"
  "nextOid (cancel_leaveTimer s) = nextOid s"
  "nextTid (cancel_leaveTimer s) = nextTid s"
  "nextTimer (cancel_leaveTimer s) = nextTimer s"
  by (simp_all add: cancel_leaveTimer_def Let_def split: option.splits)

lemma onCardEnter_frame [simp]:
  "isInitialized (onCardEnter now k s) = isInitialized s"
  "prefersReducedMotion (onCardEnter now k s) = prefersReducedMotion s"
  "focusLevel (onCardEnter now k s) = focusLevel s"
  "baseCamera (onCardEnter now k s) = baseCamera s"
  "parallax (onCardEnter now k s) = parallax s"
  "parallaxTarget (onCardEnter now k s) = parallaxTarget s"
  "breathing (onCardEnter now k s) = breathing s"
  "camera_position (onCardEnter now k s) = camera_position s"
  "scene (onCardEnter now k s) = scene s"
  "document (onCardEnter now k s) = document s"
  "console (onCardEnter now k s) = console s"
  "nextOid (onCardEnter now k s) = nextOid s"
  "nextTimer (onCardEnter now k s) = nextTimer s"
  by (simp_all add: onCardEnter_def onCardEnter_proceed_def Let_def split: option.splits)

lemma onCardLeave_frame [simp]:
  "cards (onCardLeave now k ev rect s) = cards s"
  "isInitialized (onCardLeave now k ev rect s) = isInitialized s"
  "prefersReducedMotion (onCardLeave now k ev rect s) = prefersReducedMotion s"
  "focusLevel (onCardLeave now k ev rect s) = focusLevel s"
  "baseCamera (onCardLeave now k ev rect s) = baseCamera s"
  "parallax (onCardLeave now k ev rect s) = parallax s"
  "parallaxTarget (onCardLeave now k ev rect s) = parallaxTarget s"
  "breathing (onCardLeave now k ev rect s) = breathing s"
  "camera_position (onCardLeave now k ev rect s) = camera_position s"
  "scene (onCardLeave now k ev rect s) = scene s"
  "tweens (onCardLeave now k ev rect s) = tweens s"
  "document (onCardLeave now k ev rect s) = document s"
  "console (onCardLeave now k ev rect s) = console s"
  "nextOid (onCardLeave now k ev rect s) = nextOid s"
  "nextTid (onCardLeave now k ev rect s) = nextTid s"
  by (simp_all add: onCardLeave_def Let_def split: option.splits)

lemma leaveTimeout_callback_frame [simp]:
  "isInitialized (leaveTimeout_callback now k s) = isInitialized s"
  "prefersReducedMotion (leaveTimeout_callback now k s) = prefersReducedMotion s"
  "focusLevel (leaveTimeout_callback now k s) = focusLevel s"
  "baseCamera (leaveTimeout_callback now k s) = baseCamera s"
  "parallax (leaveTimeout_callback now k s) = parallax s"
  "parallaxTarget (leaveTimeout_callback now k s) = parallaxTarget s"
  "breathing (leaveTimeout_callback now k s) = breathing s"
  "camera_position (leaveTimeout_callback now k s) = camera_position s"
  "scene (leaveTimeout_callback now k s) = scene s"
  "timers (leaveTimeout_callback now k s) = timers s"
  "document (leaveTimeout_callback now k s) = document s"
  "console (leaveTimeout_callback now k s) = console s"
  "nextOid (leaveTimeout_callback now k s) = nextOid s"
  "nextTimer (leaveTimeout_callback now k s) = nextTimer s"
  by (simp_all add: leaveTimeout_callback_def Let_def)

lemma timeout_fires_frame [simp]:
  "isInitialized (timeout_fires now h s) = isInitialized s"
  "prefersReducedMotion (timeout_fires now h s) = prefersReducedMotion s"
  "focusLevel (timeout_fires now h s) = focusLevel s"
  "baseCamera (timeout_fires now h s) = baseCamera s"
  "parallax (timeout_fires now h s) = parallax s"
  "parallaxTarget (timeout_fires now h s) = parallaxTarget s"
  "breathing (timeout_fires now h s) = breathing s"
  "camera_position (timeout_fires now h s) = camera_position s"
  "scene (timeout_fires now h s) = scene s"
  "document (timeout_fires now h s) = document s"
  "console (timeout_fires now h s) = console s"
  "nextOid (timeout_fires now h s) = nextOid s"
  "nextTimer (timeout_fires now h s) = nextTimer s"
  by (simp_all add: timeout_fires_def split: option.splits)

lemma updateTarget_frame [simp]:
  "cards (updateTarget clientX clientY rect s) = cards s"
  "isInitialized (updateTarget clientX clientY rect s) = isInitialized s"
  "prefersReducedMotion (updateTarget clientX clientY rect s) = prefersReducedMotion s"
  "focusLevel (updateTarget clientX clientY rect s) = focusLevel s"
  "baseCamera (updateTarget clientX clientY rect s) = baseCamera s"
  "parallax (updateTarget clientX clientY rect s) = parallax s"
  "breathing (updateTarget clientX clientY rect s) = breathing s"
  "hoverState (updateTarget clientX clientY rect s) = hoverState s"
  "camera_position (updateTarget clientX clientY rect s) = camera_position s"
  "scene (updateTarget clientX clientY rect s) = scene s"
  "tweens (updateTarget clientX clientY rect s) = tweens s"
  "timers (updateTarget clientX clientY rect s) = timers s"
  "document (updateTarget clientX clientY rect s) = document s"
  "console (updateTarget clientX clientY rect s) = console s"
  "nextOid (updateTarget clientX clientY rect s) = nextOid s"
  "nextTid (updateTarget clientX clientY rect s) = nextTid s"
  "nextTimer (updateTarget clientX clientY rect s) = nextTimer s"
  by (simp_all add: updateTarget_def Let_def)

lemma touchMove_frame [simp]:
  "cards (touchMove touch rect s) = cards s"
  "isInitialized (touchMove touch rect s) = isInitialized s"
  "prefersReducedMotion (touchMove touch rect s) = prefersReducedMotion s"
  "focusLevel (touchMove touch rect s) = focusLevel s"
  "baseCamera (touchMove touch rect s) = baseCamera s"
  "parallax (touchMove touch rect s) = parallax s"
  "breathing (touchMove touch rect s) = breathing s"
  "hoverState (touchMove touch rect s) = hoverState s"
  "camera_position (touchMove touch rect s) = camera_position s"
  "scene (touchMove touch rect s) = scene s"
  "tweens (touchMove touch rect s) = tweens s"
  "timers (touchMove touch rect s) = timers s"
  "document (touchMove touch rect s) = document s"
  "console (touchMove touch rect s) = console s"
  "nextOid (touchMove touch rect s) = nextOid s"
  "nextTid (touchMove touch rect s) = nextTid s"
  "nextTimer (touchMove touch rect s) = nextTimer s"
  by (simp_all add: touchMove_def split: option.splits)

lemma containerPointerLeave_frame [simp]:
  "isInitialized (containerPointerLeave now s) = isInitialized s"
  "prefersReducedMotion (containerPointerLeave now s) = prefersReducedMotion s"
  "focusLevel (containerPointerLeave now s) = focusLevel s"
  "baseCamera (containerPointerLeave now s) = baseCamera s"
  "parallax (containerPointerLeave now s) = parallax s"
  "breathing (containerPointerLeave now s) = breathing s"
  "camera_position (containerPointerLeave now s) = camera_position s"
  "scene (containerPointerLeave now s) = scene s"
  "timers (containerPointerLeave now s) = timers s"
  "document (containerPointerLeave now s) = document s"
  "console (containerPointerLeave now s) = console s"
  "nextOid (containerPointerLeave now s) = nextOid s"
  "nextTimer (containerPointerLeave now s) = nextTimer s"
  by (simp_all add: containerPointerLeave_def Let_def split: option.splits)

lemma run_callback_frame [simp]:
  "isInitialized (run_callback cb s) = isInitialized s"
  "prefersReducedMotion (run_callback cb s) = prefersReducedMotion s"
  "focusLevel (run_callback cb s) = focusLevel s"
  "baseCamera (run_callback cb s) = baseCamera s"
  "parallax (run_callback cb s) = parallax s"
  "parallaxTarget (run_callback cb s) = parallaxTarget s"
  "breathing (run_callback cb s) = breathing s"
  "hoverState (run_callback cb s) = hoverState s"
  "camera_position (run_callback cb s) = camera_position s"
  "tweens (run_callback cb s) = tweens s"
  "timers (run_callback cb s) = timers s"
  "document (run_callback cb s) = document s"
  "console (run_callback cb s) = console s"
  "nextOid (run_callback cb s) = nextOid s"
  "nextTid (run_callback cb s) = nextTid s"
  "nextTimer (run_callback cb s) = nextTimer s"
  by (cases cb; simp)+

lemma update_tweens_frame [simp]:
  "isInitialized (update_tweens now tws s) = isInitialized s"
  "prefersReducedMotion (update_tweens now tws s) = prefersReducedMotion s"
  "focusLevel (update_tweens now tws s) = focusLevel s"
  "baseCamera (update_tweens now tws s) = baseCamera s"
  "parallax (update_tweens now tws s) = parallax s"
  "parallaxTarget (update_tweens now tws s) = parallaxTarget s"
  "breathing (update_tweens now tws s) = breathing s"
  "hoverState (update_tweens now tws s) = hoverState s"
  "camera_position (update_tweens now tws s) = camera_position s"
  "timers (update_tweens now tws s) = timers s"
  "document (update_tweens now tws s) = document s"
  "console (update_tweens now tws s) = console s"
  "nextOid (update_tweens now tws s) = nextOid s"
  "nextTid (update_tweens now tws s) = nextTid s"
  "nextTimer (update_tweens now tws s) = nextTimer s"
  by (induction tws arbitrary: s; simp)+

lemma TWEEN_update_frame [simp]:
  "isInitialized (TWEEN_update now s) = isInitialized s"
  "prefersReducedMotion (TWEEN_update now s) = prefersReducedMotion s"
  "focusLevel (TWEEN_update now s) = focusLevel s"
  "baseCamera (TWEEN_update now s) = baseCamera s"
  "parallax (TWEEN_update now s) = parallax s"
  "parallaxTarget (TWEEN_update now s) = parallaxTarget s"
  "breathing (TWEEN_update now s) = breathing s"
  "hoverState (TWEEN_update now s) = hoverState s"
  "camera_position (TWEEN_update now s) = camera_position s"
  "timers (TWEEN_update now s) = timers s"
  "document (TWEEN_update now s) = document s"
  "console (TWEEN_update now s) = console s"
  "nextOid (TWEEN_update now s) = nextOid s"
  "nextTid (TWEEN_update now s) = nextTid s"
  "nextTimer (TWEEN_update now s) = nextTimer s"
  by (simp_all add: TWEEN_update_def)

lemma updateCameraMotion_frame [simp]:
  "cards (updateCameraMotion now s) = cards s"
  "isInitialized (updateCameraMotion now s) = isInitialized s"
  "prefersReducedMotion (updateCameraMotion now s) = prefersReducedMotion s"
  "focusLevel (updateCameraMotion now s) = focusLevel s"
  "baseCamera (updateCameraMotion now s) = baseCamera s"
  "parallaxTarget (updateCameraMotion now s) = parallaxTarget s"
  "breathing (updateCameraMotion now s) = breathing s"
  "hoverState (updateCameraMotion now s) = hoverState s"
  "scene (updateCameraMotion now s) = scene s"
  "tweens (updateCameraMotion now s) = tweens s"
  "timers (updateCameraMotion now s) = timers s"
  "document (updateCameraMotion now s) = document s"
  "console (updateCameraMotion now s) = console s"
  "nextOid (updateCameraMotion now s) = nextOid s"
  "nextTid (updateCameraMotion now s) = nextTid s"
  "nextTimer (updateCameraMotion now s) = nextTimer s"
  by (simp_all add: updateCameraMotion_def Let_def)

lemma animate_frame [simp]:
  "isInitialized (animate now s) = isInitialized s"
  "prefersReducedMotion (animate now s) = prefersReducedMotion s"
  "focusLevel (animate now s) = focusLevel s"
  "baseCamera (animate now s) = baseCamera s"
  "parallaxTarget (animate now s) = parallaxTarget s"
  "breathing (animate now s) = breathing s"
  "hoverState (animate now s) = hoverState s"
  "timers (animate now s) = timers s"
  "document (animate now s) = document s"
  "console (animate now s) = console s"
  "nextOid (animate now s) = nextOid s"
  "nextTid (animate now s) = nextTid s"
  "nextTimer (animate now s) = nextTimer s"
  by (simp_all add: animate_def)

subsection \<open>The Map after an operation\<close>

declare cards_get_def [simp] cards_has_def [simp] cards_size_def [simp]

lemma modify_object_map [simp]:
  "map_of (cards (modify_object k f s)) j =
     (if j = k then map_option f (map_of (cards s) k) else map_of (cards s) j)"
  by (simp add: modify_object_def map_of_map_entry split: option.splits)

lemma modify_object_keys [simp]: "map fst (cards (modify_object k f s)) = map fst (cards s)"
  by (simp add: modify_object_def)

lemma cards_set_map [simp]:
  "map_of (cards (cards_set k v s)) j = (if j = k then Some v else map_of (cards s) j)"
  by (simp add: cards_set_def AList.update_conv')

lemma cards_set_keys:
  "map fst (cards (cards_set k v s)) =
     (if k \<in> set (map fst (cards s)) then map fst (cards s) else map fst (cards s) @ [k])"
  by (simp add: cards_set_def AList.update_keys)

lemma cards_delete_map [simp]:
  "map_of (cards (cards_delete k s)) j = (if j = k then None else map_of (cards s) j)"
  by (simp add: cards_delete_def AList.delete_conv')

lemma cards_delete_keys [simp]:
  "map fst (cards (cards_delete k s)) = removeAll k (map fst (cards s))"
  by (simp add: cards_delete_def AList.delete_keys)

lemma dropCard_keys [simp]: "map fst (cards (dropCard now k f s)) = map fst (cards s)"
  by (simp add: dropCard_def Let_def split: option.splits)

lemma dropCard_map:
  "map_of (cards (dropCard now k f s)) j =
     (case map_of (cards s) j of None \<Rightarrow> None
      | Some c \<Rightarrow> if j = k \<and> (f \<or> hovered c) \<and> home c \<noteq> None
                  then Some (c\<lparr>hovered := False, hoverTween := Some (nextTid s)\<rparr>) else Some c)"
  by (cases "map_of (cards s) k"; cases "map_of (cards s) j")
     (auto simp add: dropCard_def Let_def split: option.splits)

lemma liftCard_keys [simp]: "map fst (cards (liftCard now k s)) = map fst (cards s)"
  by (simp add: liftCard_def Let_def split: option.splits)

lemma liftCard_map:
  "map_of (cards (liftCard now k s)) j =
     (case map_of (cards s) j of None \<Rightarrow> None
      | Some c \<Rightarrow> if j = k \<and> \<not> hovered c \<and> home c \<noteq> None
                  then Some (c\<lparr>hovered := True, hoverTween := Some (nextTid s)\<rparr>) else Some c)"
  by (cases "map_of (cards s) k"; cases "map_of (cards s) j")
     (auto simp add: liftCard_def Let_def split: option.splits)

lemma restack_one_keys [simp]: "map fst (cards (restack_one now k idx s)) = map fst (cards s)"
  by (simp add: restack_one_def Let_def split: option.splits)

lemma restack_one_map:
  "map_of (cards (restack_one now k idx s)) j =
     (case map_of (cards s) j of None \<Rightarrow> None
      | Some c \<Rightarrow> if j = k
                  then Some (c\<lparr>home := Some (home_of (computeStackTransform (idx + 1))), hovered := False,
                               hoverTween := (if hovered c then Some (nextTid s) else hoverTween c)\<rparr>)
                  else Some c)"
  by (cases "map_of (cards s) k"; cases "map_of (cards s) j")
     (auto simp add: restack_one_def Let_def dropCard_map split: option.splits)

lemma restack_each_keys [simp]: "map fst (cards (restack_each now ids idx s)) = map fst (cards s)"
  by (induction ids arbitrary: idx s) simp_all

lemma addCard_keys:
  "map fst (cards (addCard now k s)) =
     (if getElementById (document s) k = None \<or> k \<in> set (map fst (cards s))
      then map fst (cards s) else map fst (cards s) @ [k])"
  by (simp add: addCard_def addCard_tracked_def Let_def cards_set_keys split: option.splits)

lemma addCard_map:
  "map_of (cards (addCard now k s)) j =
     (if j = k \<and> getElementById (document s) k \<noteq> None
      then Some ((new_CSS3DObject k s)\<lparr>home := Some (home_of (computeStackTransform
                   (if k \<in> set (map fst (cards s)) then length (cards s) else Suc (length (cards s))))),
                   hovered := False\<rparr>)
      else map_of (cards s) j)"
  by (auto simp add: addCard_def addCard_tracked_def Let_def new_CSS3DObject_def cards_set_def
        length_AList_update AList.update_conv' split: option.splits)

subsection \<open>The keys stay distinct and non-empty\<close>

lemma keys_ok_empty_key: "keys_ok s \<Longrightarrow> map_of (cards s) [] = None"
  by (simp add: keys_ok_def map_of_eq_None_iff)

lemma cancel_leaveTimer_active [simp]:
  "activeId (hoverState (cancel_leaveTimer s)) = activeId (hoverState s)"
  "switchLockUntil (hoverState (cancel_leaveTimer s)) = switchLockUntil (hoverState s)"
  "lockMs (hoverState (cancel_leaveTimer s)) = lockMs (hoverState s)"
  "releaseMs (hoverState (cancel_leaveTimer s)) = releaseMs (hoverState s)"
  "leaveTimer (hoverState (cancel_leaveTimer s)) = None"
  by (simp_all add: cancel_leaveTimer_def Let_def split: option.splits)

lemma onCardEnter_proceed_keys [simp]:
  "map fst (cards (onCardEnter_proceed now k s)) = map fst (cards s)"
  by (simp add: onCardEnter_proceed_def)

lemma onCardEnter_keys [simp]: "map fst (cards (onCardEnter now k s)) = map fst (cards s)"
  by (simp add: onCardEnter_def Let_def split: option.splits)

lemma leaveTimeout_callback_keys [simp]:
  "map fst (cards (leaveTimeout_callback now k s)) = map fst (cards s)"
  by (simp add: leaveTimeout_callback_def Let_def)

lemma timeout_fires_keys [simp]: "map fst (cards (timeout_fires now h s)) = map fst (cards s)"
  by (simp add: timeout_fires_def split: option.splits)

lemma containerPointerLeave_keys [simp]:
  "map fst (cards (containerPointerLeave now s)) = map fst (cards s)"
  by (simp add: containerPointerLeave_def Let_def split: option.splits)

lemma setCardVisible_keys [simp]: "map fst (cards (setCardVisible now k v s)) = map fst (cards s)"
  by (simp add: setCardVisible_def setCardVisible_show_def setCardVisible_drop_def Let_def
      split: option.splits)

lemma restackVisible_keys [simp]: "map fst (cards (restackVisible now a s)) = map fst (cards s)"
  by (simp add: restackVisible_def split: option.splits)

lemma run_callback_keys:
  "map fst (cards (run_callback cb s)) =
     (case cb of DiscardComplete ob k \<Rightarrow> removeAll k (map fst (cards s)) | _ \<Rightarrow> map fst (cards s))"
  by (cases cb) simp_all

lemma keys_ok_run_callback: "keys_ok s \<Longrightarrow> keys_ok (run_callback cb s)"
  by (cases cb) (simp_all add: keys_ok_def distinct_removeAll)

lemma keys_ok_stop_tween [simp]: "keys_ok (stop_tween t s) = keys_ok s"
  by (simp add: keys_ok_def)

lemma keys_ok_update_tweens: "keys_ok s \<Longrightarrow> keys_ok (update_tweens now tws s)"
  by (induction tws arbitrary: s) (simp_all add: keys_ok_run_callback)

lemma animate_cards [simp]: "cards (animate now s) = cards (update_tweens now (tweens s) s)"
  by (simp add: animate_def TWEEN_update_def updateCameraMotion_def Let_def)

lemma keys_ok_addCard: "keys_ok s \<Longrightarrow> keys_ok (addCard now k s)"
  by (auto simp add: keys_ok_def addCard_keys getElementById_def split: if_splits)

lemma keys_ok_step: "keys_ok s \<Longrightarrow> keys_ok (step e s)"
proof (cases e)
  case (AddCard now k)
  assume "keys_ok s" then show ?thesis unfolding AddCard by (simp add: keys_ok_addCard)
next
  case (AnimationFrame now)
  assume "keys_ok s" then have "keys_ok (update_tweens now (tweens s) s)" by (rule keys_ok_update_tweens)
  then show ?thesis unfolding AnimationFrame by (simp add: keys_ok_def)
qed (simp_all add: keys_ok_def)

subsection \<open>Every tracked object has a home slot\<close>

lemma homes_ok_hoverState [simp]: "homes_ok (s\<lparr>hoverState := h\<rparr>) = homes_ok s"
  by (simp add: homes_ok_def)

lemma homes_ok_dropCard: "homes_ok s \<Longrightarrow> homes_ok (dropCard now k f s)"
  unfolding homes_ok_def by (auto simp: dropCard_map split: option.splits if_splits)

lemma homes_ok_liftCard: "homes_ok s \<Longrightarrow> homes_ok (liftCard now k s)"
  unfolding homes_ok_def by (auto simp: liftCard_map split: option.splits if_splits)

lemma homes_ok_restack_one: "homes_ok s \<Longrightarrow> homes_ok (restack_one now k idx s)"
  unfolding homes_ok_def by (auto simp: restack_one_map split: option.splits if_splits)

lemma homes_ok_restack_each: "homes_ok s \<Longrightarrow> homes_ok (restack_each now ids idx s)"
  by (induction ids arbitrary: idx s) (simp_all add: homes_ok_restack_one)

lemma homes_ok_addCard: "homes_ok s \<Longrightarrow> homes_ok (addCard now k s)"
  unfolding homes_ok_def by (auto simp: addCard_map split: option.splits if_splits)

lemma homes_ok_cancel [simp]: "homes_ok (cancel_leaveTimer s) = homes_ok s"
  by (simp add: homes_ok_def)

lemma homes_ok_onCardEnter: "homes_ok s \<Longrightarrow> homes_ok (onCardEnter now k s)"
  by (simp add: onCardEnter_def onCardEnter_proceed_def Let_def homes_ok_liftCard homes_ok_dropCard
      split: option.splits)

lemma homes_ok_leaveTimeout_callback: "homes_ok s \<Longrightarrow> homes_ok (leaveTimeout_callback now k s)"
  by (simp add: leaveTimeout_callback_def Let_def homes_ok_dropCard)

lemma homes_ok_clearTimeout [simp]: "homes_ok (clearTimeout h s) = homes_ok s"
  by (simp add: homes_ok_def)

lemma homes_ok_timeout_fires: "homes_ok s \<Longrightarrow> homes_ok (timeout_fires now h s)"
  by (simp add: timeout_fires_def homes_ok_leaveTimeout_callback split: option.splits)

lemma homes_ok_parallaxTarget [simp]: "homes_ok (s\<lparr>parallaxTarget := p\<rparr>) = homes_ok s"
  by (simp add: homes_ok_def)

lemma homes_ok_containerPointerLeave: "homes_ok s \<Longrightarrow> homes_ok (containerPointerLeave now s)"
  by (simp add: containerPointerLeave_def Let_def homes_ok_dropCard split: option.splits)

lemma setCardVisible_show_map:
  "map_of (cards (setCardVisible_show k vis s)) j =
     (if j = k then map_option (\<lambda>c. c\<lparr>visible := vis\<rparr>) (map_of (cards s) k) else map_of (cards s) j)"
  by (simp add: setCardVisible_show_def Let_def split: option.splits)

lemma homes_ok_setCardVisible_show: "homes_ok s \<Longrightarrow> homes_ok (setCardVisible_show k vis s)"
  unfolding homes_ok_def by (auto simp: setCardVisible_show_map split: option.splits if_splits)

lemma homes_ok_setCardVisible_drop: "homes_ok s \<Longrightarrow> homes_ok (setCardVisible_drop now k vis s)"
  by (simp add: setCardVisible_drop_def Let_def homes_ok_dropCard)

lemma homes_ok_setCardVisible: "homes_ok s \<Longrightarrow> homes_ok (setCardVisible now k v s)"
  by (simp add: setCardVisible_def Let_def homes_ok_setCardVisible_show homes_ok_setCardVisible_drop
      split: option.splits)

lemma homes_ok_restackVisible: "homes_ok s \<Longrightarrow> homes_ok (restackVisible now a s)"
  by (simp add: restackVisible_def homes_ok_restack_each split: option.splits)

lemma homes_ok_run_callback: "homes_ok s \<Longrightarrow> homes_ok (run_callback cb s)"
  unfolding homes_ok_def by (cases cb) (auto split: if_splits)

lemma homes_ok_stop_tween [simp]: "homes_ok (stop_tween t s) = homes_ok s"
  by (simp add: homes_ok_def)

lemma homes_ok_update_tweens: "homes_ok s \<Longrightarrow> homes_ok (update_tweens now tws s)"
  by (induction tws arbitrary: s) (simp_all add: homes_ok_run_callback)

lemma homes_ok_step: "homes_ok s \<Longrightarrow> homes_ok (step e s)"
proof (cases e)
  case (AnimationFrame now)
  assume "homes_ok s" then have "homes_ok (update_tweens now (tweens s) s)" by (rule homes_ok_update_tweens)
  then show ?thesis unfolding AnimationFrame by (simp add: homes_ok_def)
qed (simp_all add: homes_ok_addCard homes_ok_setCardVisible homes_ok_restackVisible homes_ok_onCardEnter
       homes_ok_timeout_fires homes_ok_containerPointerLeave, simp_all add: homes_ok_def)

subsection \<open>A hovered object is the active one\<close>

lemma only_hovered_same: "cards s' = cards s \<Longrightarrow> only_hovered a s' = only_hovered a s"
  by (simp add: only_hovered_def)

lemma only_hovered_dropCard: "only_hovered a s \<Longrightarrow> only_hovered a (dropCard now k f s)"
  unfolding only_hovered_def by (auto simp: dropCard_map split: option.splits if_splits)

lemma none_hovered_dropCard:
  "homes_ok s \<Longrightarrow> only_hovered (Some k) s \<Longrightarrow> only_hovered None (dropCard now k True s)"
  unfolding only_hovered_def homes_ok_def by (auto simp: dropCard_map split: option.splits if_splits)

lemma only_hovered_liftCard:
  "only_hovered None s \<or> only_hovered (Some k) s \<Longrightarrow> only_hovered (Some k) (liftCard now k s)"
  unfolding only_hovered_def by (auto simp: liftCard_map split: option.splits if_splits)

lemma only_hovered_empty: "keys_ok s \<Longrightarrow> only_hovered (Some []) s \<Longrightarrow> only_hovered None s"
  using keys_ok_empty_key unfolding only_hovered_def by fastforce

lemma only_hovered_weaken: "only_hovered None s \<Longrightarrow> only_hovered a s"
  unfolding only_hovered_def by blast

lemma hover_ok_proceed:
  assumes "only_hovered None s \<or> only_hovered (Some k) s"
  shows "hover_ok (onCardEnter_proceed now k s)"
proof -
  let ?t = "s\<lparr>hoverState := (hoverState s)\<lparr>activeId := Some k,
                switchLockUntil := now + lockMs (hoverState s)\<rparr>\<rparr>"
  have "cards ?t = cards s" by simp
  then have "only_hovered None ?t \<or> only_hovered (Some k) ?t"
    using assms by (simp add: only_hovered_def)
  then have "only_hovered (Some k) (liftCard now k ?t)" by (rule only_hovered_liftCard)
  then show ?thesis by (simp add: hover_ok_def onCardEnter_proceed_def)
qed

lemma hover_ok_onCardEnter:
  assumes "keys_ok s" "homes_ok s" "hover_ok s"
  shows "hover_ok (onCardEnter now k s)"
proof -
  define s1 where "s1 = cancel_leaveTimer s"
  have c1: "cards s1 = cards s" and a1: "activeId (hoverState s1) = activeId (hoverState s)"
    by (simp_all add: s1_def)
  have k1: "keys_ok s1" and h1: "homes_ok s1" and o1: "only_hovered (activeId (hoverState s1)) s1"
    using assms c1 a1 by (simp_all add: keys_ok_def homes_ok_def hover_ok_def only_hovered_def)
  have eq: "onCardEnter now k s =
    (case activeId (hoverState s1) of
           None \<Rightarrow> onCardEnter_proceed now k s1
         | Some active \<Rightarrow>
             if active \<noteq> [] \<and> active \<noteq> k
             then (if now < switchLockUntil (hoverState s1) then s1
                   else onCardEnter_proceed now k (dropCard now active True s1))
             else onCardEnter_proceed now k s1)"
    unfolding onCardEnter_def s1_def Let_def ..
  show ?thesis
  proof (cases "activeId (hoverState s1)")
    case None
    then show ?thesis using o1 by (simp add: eq hover_ok_proceed)
  next
    case (Some a)
    show ?thesis
    proof (cases "a \<noteq> [] \<and> a \<noteq> k")
      case True
      note split = this
      show ?thesis
      proof (cases "now < switchLockUntil (hoverState s1)")
        case True
        then have "onCardEnter now k s = s1" using Some split by (simp add: eq)
        then show ?thesis using o1 by (simp add: hover_ok_def)
      next
        case False
        then have e: "onCardEnter now k s = onCardEnter_proceed now k (dropCard now a True s1)"
          using Some split by (simp add: eq)
        have "only_hovered None (dropCard now a True s1)"
          using none_hovered_dropCard[OF h1] o1 Some by simp
        then show ?thesis unfolding e by (simp add: hover_ok_proceed)
      qed
    next
      case False
      then have "only_hovered None s1 \<or> only_hovered (Some k) s1"
        using Some o1 k1 only_hovered_empty by auto
      then show ?thesis using Some False by (auto simp add: eq hover_ok_proceed)
    qed
  qed
qed

lemma hover_ok_drop_active:
  assumes "homes_ok s" "hover_ok s" "activeId (hoverState s) = Some k"
  shows "hover_ok ((dropCard now k True s)\<lparr>hoverState := (hoverState (dropCard now k True s))\<lparr>activeId := None\<rparr>\<rparr>)"
proof -
  have "only_hovered None (dropCard now k True s)"
    using assms none_hovered_dropCard by (simp add: hover_ok_def)
  then show ?thesis by (simp add: hover_ok_def only_hovered_def)
qed

lemma hover_ok_leaveTimeout_callback:
  "homes_ok s \<Longrightarrow> hover_ok s \<Longrightarrow> hover_ok (leaveTimeout_callback now k s)"
  using hover_ok_drop_active[of s k now] by (simp add: leaveTimeout_callback_def Let_def)

lemma hover_ok_clearTimeout [simp]: "hover_ok (clearTimeout h s) = hover_ok s"
  by (simp add: hover_ok_def only_hovered_def)

lemma hover_ok_parallaxTarget [simp]: "hover_ok (s\<lparr>parallaxTarget := p\<rparr>) = hover_ok s"
  by (simp add: hover_ok_def only_hovered_def)

lemma hover_ok_timeout_fires: "homes_ok s \<Longrightarrow> hover_ok s \<Longrightarrow> hover_ok (timeout_fires now h s)"
  by (simp add: timeout_fires_def hover_ok_leaveTimeout_callback split: option.splits)

lemma hover_ok_containerPointerLeave:
  "homes_ok s \<Longrightarrow> hover_ok s \<Longrightarrow> hover_ok (containerPointerLeave now s)"
  using hover_ok_drop_active[of "s\<lparr>parallaxTarget := \<lparr> off_x = Fin 0, off_z = Fin 0 \<rparr>\<rparr>" _ now]
  by (simp add: containerPointerLeave_def Let_def split: option.splits)

lemma hover_ok_setCardVisible_drop:
  "homes_ok s \<Longrightarrow> hover_ok s \<Longrightarrow> hover_ok (setCardVisible_drop now k vis s)"
  using hover_ok_drop_active[of s k now] by (simp add: setCardVisible_drop_def Let_def)

lemma hover_ok_setCardVisible_show: "hover_ok s \<Longrightarrow> hover_ok (setCardVisible_show k vis s)"
proof -
  have a: "activeId (hoverState (setCardVisible_show k vis s)) = activeId (hoverState s)"
    by (simp add: setCardVisible_show_def Let_def split: option.splits)
  assume "hover_ok s" then show ?thesis
    unfolding hover_ok_def a unfolding only_hovered_def
    by (auto simp: setCardVisible_show_map split: option.splits if_splits)
qed

lemma hover_ok_setCardVisible: "homes_ok s \<Longrightarrow> hover_ok s \<Longrightarrow> hover_ok (setCardVisible now k v s)"
  by (simp add: setCardVisible_def Let_def hover_ok_setCardVisible_show hover_ok_setCardVisible_drop
      split: option.splits)

lemma only_hovered_restack_one: "only_hovered a s \<Longrightarrow> only_hovered a (restack_one now k idx s)"
  unfolding only_hovered_def by (auto simp: restack_one_map split: option.splits if_splits)

lemma only_hovered_restack_each: "only_hovered a s \<Longrightarrow> only_hovered a (restack_each now ids idx s)"
  by (induction ids arbitrary: idx s) (simp_all add: only_hovered_restack_one)

lemma hover_ok_restackVisible: "hover_ok s \<Longrightarrow> hover_ok (restackVisible now a s)"
  by (simp add: hover_ok_def restackVisible_def only_hovered_restack_each split: option.splits)

lemma hover_ok_addCard: "hover_ok s \<Longrightarrow> hover_ok (addCard now k s)"
  unfolding hover_ok_def only_hovered_def by (auto simp: addCard_map split: option.splits if_splits)

lemma only_hovered_run_callback: "only_hovered a s \<Longrightarrow> only_hovered a (run_callback cb s)"
  unfolding only_hovered_def by (cases cb) (auto split: if_splits)

lemma only_hovered_stop_tween [simp]: "only_hovered a (stop_tween t s) = only_hovered a s"
  by (simp add: only_hovered_def)

lemma only_hovered_update_tweens: "only_hovered a s \<Longrightarrow> only_hovered a (update_tweens now tws s)"
  by (induction tws arbitrary: s) (simp_all add: only_hovered_run_callback)

lemma onCardLeave_hover [simp]:
  "activeId (hoverState (onCardLeave now k ev rect s)) = activeId (hoverState s)"
  "switchLockUntil (hoverState (onCardLeave now k ev rect s)) = switchLockUntil (hoverState s)"
  by (simp_all add: onCardLeave_def Let_def split: option.splits)

lemma hover_ok_step: "keys_ok s \<Longrightarrow> homes_ok s \<Longrightarrow> hover_ok s \<Longrightarrow> hover_ok (step e s)"
proof (cases e)
  case (AnimationFrame now)
  assume "hover_ok s"
  then have "only_hovered (activeId (hoverState s)) (update_tweens now (tweens s) s)"
    unfolding hover_ok_def by (rule only_hovered_update_tweens)
  then show ?thesis unfolding AnimationFrame by (simp add: hover_ok_def only_hovered_def)
qed (simp_all add: hover_ok_addCard hover_ok_setCardVisible hover_ok_restackVisible hover_ok_onCardEnter
       hover_ok_timeout_fires hover_ok_containerPointerLeave, simp_all add: hover_ok_def only_hovered_def)

subsection \<open>Reachable states\<close>

lemma reachable_run: "reachable s \<Longrightarrow> reachable (run evs s)"
  unfolding run_def by (induction evs arbitrary: s) (simp_all add: reachable.stepped)

lemma created_cards [simp]: "cards (createCardEngine doc reduced rnd now) = []"
  by (simp add: createCardEngine_def init_def)

lemma reachable_invariants: "reachable s \<Longrightarrow> keys_ok s \<and> homes_ok s \<and> hover_ok s"
proof (induction rule: reachable.induct)
  case (created doc reduced rnd now)
  show ?case by (simp add: keys_ok_def homes_ok_def hover_ok_def only_hovered_def)
next
  case (stepped s e)
  then show ?case by (simp add: keys_ok_step homes_ok_step hover_ok_step)
qed

lemma filter_at_most_one:
  "distinct (map fst al) \<Longrightarrow> (\<forall>k c. map_of al k = Some c \<longrightarrow> P c \<longrightarrow> a = Some k) \<Longrightarrow>
   length (filter (\<lambda>(k, c). P c) al) \<le> 1"
proof (induction al)
  case Nil
  show ?case by simp
next
  case (Cons x al)
  obtain k0 c0 where x: "x = (k0, c0)" by (cases x)
  have notin: "k0 \<notin> fst ` set al" and dist: "distinct (map fst al)"
    using Cons.prems(1) by (simp_all add: x)
  have rest: "\<And>k c. map_of al k = Some c \<Longrightarrow> P c \<Longrightarrow> a = Some k"
  proof -
    fix k c assume m: "map_of al k = Some c" and p: "P c"
    then have "k \<in> fst ` set al" by (metis map_of_eq_None_iff option.distinct(1))
    then have "k \<noteq> k0" using notin by auto
    then have "map_of (x # al) k = Some c" using m by (simp add: x)
    then show "a = Some k" using Cons.prems(2) p by blast
  qed
  show ?case
  proof (cases "P c0")
    case False
    then show ?thesis using Cons.IH[OF dist] rest by (simp add: x)
  next
    case True
    then have a: "a = Some k0" using Cons.prems(2) by (simp add: x)
    have "filter (\<lambda>(k, c). P c) al = []"
    proof (rule ccontr)
      assume "filter (\<lambda>(k, c). P c) al \<noteq> []"
      then obtain k c where kc: "(k, c) \<in> set al" "P c"
        by (auto simp: filter_empty_conv)
      then have "map_of al k = Some c" using dist by simp
      then have "a = Some k" using rest kc by blast
      then show False using a notin kc by force
    qed
    then show ?thesis by (simp add: x)
  qed
qed

lemmas engine_defs = addCard_def addCard_tracked_def new_CSS3DObject_def moveToStack_def discard_def
  setCardVisible_def setCardVisible_show_def setCardVisible_drop_def restackVisible_def restack_one_def
  setFocus_def setMotionEnabled_def onCardEnter_def onCardEnter_proceed_def cancel_leaveTimer_def
  onCardLeave_def leaveTimeout_callback_def timeout_fires_def updateTarget_def touchMove_def
  containerPointerLeave_def liftCard_def dropCard_def TWEEN_update_def updateCameraMotion_def animate_def
  tween_complete_def createCardEngine_def init_def run_def getElementById_def
  modify_object_def cards_set_def cards_delete_def start_tween_def stop_tween_def stop_hoverTween_def
  clearTimeout_def setTimeout_def js_sub_def home_of_def

lemma demo_keys: "map fst (cards demo_hovered) = [''a'', ''b'']"
  by (simp add: demo_hovered_def demo_two_cards_def demo_engine_def demo_document_def demo_element_def
      engine_defs Let_def)

lemma demo_hovered_a: "map_option hovered (map_of (cards demo_hovered) ''a'') = Some True"
  by (simp add: demo_hovered_def demo_two_cards_def demo_engine_def demo_document_def demo_element_def
      engine_defs Let_def)

subsection \<open>Facts about the pointer-enter handler and the scenarios\<close>

lemma keys_image: "map fst al' = map fst al \<Longrightarrow> fst ` set al' = fst ` set al"
  by (metis set_map)

lemma onCardEnter_switch:
  assumes "activeId (hoverState s) = Some old" "old \<noteq> []" "old \<noteq> new"
    "\<not> now < switchLockUntil (hoverState s)"
  shows "onCardEnter now new s = onCardEnter_proceed now new (dropCard now old True (cancel_leaveTimer s))"
  using assms by (simp add: onCardEnter_def Let_def)

lemma onCardEnter_proceed_map:
  "map_of (cards (onCardEnter_proceed now k s)) j =
     (case map_of (cards s) j of None \<Rightarrow> None
      | Some c \<Rightarrow> if j = k \<and> \<not> hovered c \<and> home c \<noteq> None
                  then Some (c\<lparr>hovered := True, hoverTween := Some (nextTid s)\<rparr>) else Some c)"
  by (auto simp add: onCardEnter_proceed_def liftCard_map split: option.splits)

lemma onCardEnter_proceed_active [simp]:
  "activeId (hoverState (onCardEnter_proceed now k s)) = Some k"
  "switchLockUntil (hoverState (onCardEnter_proceed now k s)) = now + lockMs (hoverState s)"
  by (simp_all add: onCardEnter_proceed_def)

lemmas demo_defs = demo_hovered_def demo_two_cards_def demo_engine_def demo_document_def demo_element_def

lemma reachable_demo_hovered: "reachable demo_hovered"
  unfolding demo_hovered_def demo_two_cards_def demo_engine_def
  by (intro reachable_run reachable.created)

lemma demo_hovered_facts:
  "cards_has demo_hovered ''b''"
  "map_option hovered (cards_get demo_hovered ''a'') = Some True"
  "switchLockUntil (hoverState demo_hovered) = 190"
  by (simp_all add: demo_defs engine_defs Let_def)

subsection \<open>Focus level, camera and early returns\<close>

lemma setFocus_clamps:
  "level \<noteq> NaN \<Longrightarrow> in_unit_interval (focusLevel (setFocus (Given level) s))"
  by (cases level) (simp_all add: setFocus_def)

lemma setFocus_default: "focusLevel (setFocus Omitted s) = Fin 0"
  by (simp add: setFocus_def)

lemma focusLevel_step: "(\<And>level. e \<noteq> SetFocus level) \<Longrightarrow> focusLevel (step e s) = focusLevel s"
  by (cases e) auto

lemma reduced_step:
  assumes "prefersReducedMotion s" "\<not> enables_motion e"
  shows "prefersReducedMotion (step e s) \<and> camera_position (step e s) = camera_position s \<and>
         parallax (step e s) = parallax s \<and> baseCamera (step e s) = baseCamera s"
proof (cases e)
  case (AnimationFrame now)
  then show ?thesis using assms by (simp add: animate_def updateCameraMotion_def)
next
  case (SetMotionEnabled enabled)
  then show ?thesis using assms by (simp add: setMotionEnabled_def)
qed (use assms in simp_all)

lemma reduced_run:
  "prefersReducedMotion s \<Longrightarrow> \<forall>e\<in>set evs. \<not> enables_motion e \<Longrightarrow>
   prefersReducedMotion (run evs s) \<and> camera_position (run evs s) = camera_position s \<and>
   parallax (run evs s) = parallax s \<and> baseCamera (run evs s) = baseCamera s"
proof (induction evs arbitrary: s)
  case Nil
  then show ?case by (simp add: run_def)
next
  case (Cons e evs)
  have st: "prefersReducedMotion (step e s) \<and> camera_position (step e s) = camera_position s \<and>
         parallax (step e s) = parallax s \<and> baseCamera (step e s) = baseCamera s"
    using Cons.prems by (intro reduced_step) simp_all
  have "run (e # evs) s = run evs (step e s)" by (simp add: run_def)
  then show ?case using Cons.IH[of "step e s"] st Cons.prems(2) by simp
qed

lemmas demo_defs2 = demo_frozen_def demo_moved_def demo_rect_def

lemma restack_each_unknown:
  "\<forall>k\<in>set ids. cards_get s k = None \<Longrightarrow> filter (cards_has s) ids = []"
  by (induction ids) simp_all

lemma demo_engine_facts:
  "cards_get demo_engine ''a'' = None"
  "getElementById (document demo_engine) ''zz'' = None"
  by (simp_all add: demo_defs engine_defs Let_def)

lemma onCardEnter_locked:
  assumes "activeId (hoverState s) = Some a" "a \<noteq> []" "a \<noteq> k"
    "now < switchLockUntil (hoverState s)"
  shows "onCardEnter now k s = cancel_leaveTimer s"
  using assms by (simp add: onCardEnter_def Let_def)

lemma reachable_demo_leaving: "reachable demo_leaving"
  unfolding demo_leaving_def by (intro reachable_run reachable_demo_hovered)

lemma demo_leaving_facts:
  "map_option hovered (cards_get demo_leaving ''a'') = Some True"
  "switchLockUntil (hoverState demo_leaving) = 190"
  "leaveTimer (hoverState demo_leaving) = Some 1"
  "timers demo_leaving = [(1, 160, ''a'')]"
  by (simp_all add: demo_leaving_def demo_rect_def demo_defs engine_defs Let_def)

subsection \<open>Hiding a card\<close>

lemma setCardVisible_drop_hovered:
  assumes "homes_ok s" "hover_ok s" "map_of (cards s) k = Some c" "hovered c"
  shows "setCardVisible_drop now k False s =
           (dropCard now k True s)\<lparr>hoverState := (hoverState s)\<lparr>activeId := None\<rparr>\<rparr>"
    and "only_hovered None (setCardVisible_drop now k False s)"
    and "map_of (cards (setCardVisible_drop now k False s)) k =
           Some (c\<lparr>hovered := False, hoverTween := Some (nextTid s)\<rparr>)"
proof -
  have act: "activeId (hoverState s) = Some k"
    using assms by (simp add: hover_ok_def only_hovered_def)
  show eq: "setCardVisible_drop now k False s =
           (dropCard now k True s)\<lparr>hoverState := (hoverState s)\<lparr>activeId := None\<rparr>\<rparr>"
    using act by (simp add: setCardVisible_drop_def Let_def)
  have "only_hovered None (dropCard now k True s)"
    using assms act none_hovered_dropCard by (simp add: hover_ok_def)
  then show "only_hovered None (setCardVisible_drop now k False s)"
    unfolding eq by (simp add: only_hovered_def)
  have "home c \<noteq> None" using assms(1,3) by (auto simp add: homes_ok_def)
  then show "map_of (cards (setCardVisible_drop now k False s)) k =
           Some (c\<lparr>hovered := False, hoverTween := Some (nextTid s)\<rparr>)"
    unfolding eq using assms(3) by (simp add: dropCard_map)
qed

subsection \<open>Restacking\<close>

lemma restack_each_home:
  "map_option home (map_of (cards (restack_each now ids idx s)) k) =
     map_option (slot_home ids idx k) (map_option home (map_of (cards s) k))"
proof (induction ids arbitrary: idx s)
  case Nil
  show ?case by (simp add: option.map_comp option.map_ident comp_def)
next
  case (Cons x xs)
  show ?case
    by (cases "map_of (cards s) k") (simp_all add: Cons.IH restack_one_map)
qed

lemma slot_home_mem: "k \<in> set ids \<Longrightarrow> slot_home ids idx k h = slot_home ids idx k h'"
proof (induction ids arbitrary: idx h h')
  case Nil
  then show ?case by simp
next
  case (Cons x xs)
  show ?case
  proof (cases "k \<in> set xs")
    case True
    then show ?thesis by (simp add: Cons.IH[OF True])
  next
    case False
    then have "x = k" using Cons.prems by simp
    then show ?thesis by simp
  qed
qed

lemma slot_home_notin: "k \<notin> set ids \<Longrightarrow> slot_home ids idx k h = h"
  by (induction ids arbitrary: idx h) auto

lemma slot_home_idem: "slot_home ids idx k (slot_home ids idx k h) = slot_home ids idx k h"
proof (cases "k \<in> set ids")
  case True
  then show ?thesis by (rule slot_home_mem)
next
  case False
  then show ?thesis by (simp add: slot_home_notin)
qed

lemma filter_has_restack_each:
  "filter (cards_has (restack_each now ids idx s)) xs = filter (cards_has s) xs"
proof -
  have "map fst (cards (restack_each now ids idx s)) = map fst (cards s)" by simp
  then have "fst ` set (cards (restack_each now ids idx s)) = fst ` set (cards s)"
    by (rule keys_image)
  then have "cards_has (restack_each now ids idx s) = cards_has s"
    by (simp add: fun_eq_iff map_of_eq_None_iff)
  then show ?thesis by simp
qed

lemma restackVisible_home_idem:
  "map_option home (cards_get (restackVisible now' a (restackVisible now a s)) k) =
   map_option home (cards_get (restackVisible now a s) k)"
proof (cases "arg_or (Some []) a")
  case None
  then show ?thesis by (simp add: restackVisible_def)
next
  case (Some ids)
  let ?f = "filter (cards_has s) ids"
  have 1: "restackVisible now a s = restack_each now ?f 0 s"
    using Some by (simp add: restackVisible_def)
  have 2: "restackVisible now' a (restack_each now ?f 0 s) =
           restack_each now' ?f 0 (restack_each now ?f 0 s)"
    using Some by (simp add: restackVisible_def filter_has_restack_each del: cards_has_def)
  show ?thesis
    unfolding 1 2
    by (simp add: restack_each_home option.map_comp comp_def slot_home_idem)
qed

lemma restack_pair_homes:
  assumes "cards_has s a" "cards_has s b"
  shows "map_option home (cards_get (restackVisible now (Given (Some [a, b])) s) b) =
           Some (Some (home_of (computeStackTransform 2)))"
    and "a \<noteq> b \<Longrightarrow> map_option home (cards_get (restackVisible now (Given (Some [a, b])) s) a) =
           Some (Some (home_of (computeStackTransform 1)))"
proof -
  obtain ca cb where c: "map_of (cards s) a = Some ca" "map_of (cards s) b = Some cb"
    using assms by auto
  have f: "filter (cards_has s) [a, b] = [a, b]" using assms by simp
  have e: "restackVisible now (Given (Some [a, b])) s = restack_each now [a, b] 0 s"
    unfolding restackVisible_def using f by simp
  show "map_option home (cards_get (restackVisible now (Given (Some [a, b])) s) b) =
           Some (Some (home_of (computeStackTransform 2)))"
    unfolding e cards_get_def restack_each_home by (simp add: c numeral_2_eq_2)
  show "map_option home (cards_get (restackVisible now (Given (Some [a, b])) s) a) =
           Some (Some (home_of (computeStackTransform 1)))" if "a \<noteq> b"
    unfolding e cards_get_def restack_each_home using that by (simp add: c)
qed

lemma demo_two_cards_facts:
  "cards_has demo_two_cards ''a''" "cards_has demo_two_cards ''b''"
  by (simp_all add: demo_defs engine_defs Let_def)

subsection \<open>Object identities\<close>

lemma oids_ok_benign: "oids_ok s \<Longrightarrow> benign s s' \<Longrightarrow> oids_ok s'"
  unfolding oids_ok_def benign_def callback_ok_def
  by (auto split: callback.splits)

lemma benign_refl [simp]: "benign s s"
  by (simp add: benign_def)


lemma benign_modify_object:
  "(\<And>c. oid (f c) = oid c) \<Longrightarrow> benign s s1 \<Longrightarrow> benign s (modify_object k f s1)"
  by (auto simp add: benign_def oid_at_def option.map_comp comp_def)

lemma benign_start_tween:
  "cb = NoCallback \<or> cb = EmptyCallback \<Longrightarrow> benign s s1 \<Longrightarrow>
   benign s (start_tween now ob p d ms e cb s1)"
  by (auto simp add: benign_def oid_at_def start_tween_def)

lemma benign_stop_tween: "benign s s1 \<Longrightarrow> benign s (stop_tween t s1)"
  by (auto simp add: benign_def oid_at_def stop_tween_def)

lemma benign_stop_hoverTween: "benign s s1 \<Longrightarrow> benign s (stop_hoverTween c s1)"
  by (simp add: stop_hoverTween_def benign_stop_tween split: option.splits)

lemma benign_hoverState: "benign s s1 \<Longrightarrow> benign s (s1\<lparr>hoverState := h\<rparr>)"
  by (simp add: benign_def oid_at_def)

lemma benign_parallaxTarget: "benign s s1 \<Longrightarrow> benign s (s1\<lparr>parallaxTarget := p\<rparr>)"
  by (simp add: benign_def oid_at_def)

lemma benign_document: "benign s s1 \<Longrightarrow> benign s (s1\<lparr>document := p\<rparr>)"
  by (simp add: benign_def oid_at_def)

lemma benign_clearTimeout: "benign s s1 \<Longrightarrow> benign s (clearTimeout h s1)"
  by (simp add: benign_def oid_at_def)

lemma benign_setTimeout: "benign s s1 \<Longrightarrow> benign s (setTimeout due k s1)"
  by (simp add: benign_def oid_at_def)

lemmas benign_intros = benign_modify_object benign_start_tween benign_stop_tween benign_stop_hoverTween
  benign_hoverState benign_parallaxTarget benign_document benign_clearTimeout benign_setTimeout

lemma benign_dropCard: "benign s s1 \<Longrightarrow> benign s (dropCard now k f s1)"
  by (auto simp add: dropCard_def Let_def intro!: benign_intros split: option.splits)

lemma benign_liftCard: "benign s s1 \<Longrightarrow> benign s (liftCard now k s1)"
  by (auto simp add: liftCard_def Let_def intro!: benign_intros split: option.splits)

lemma benign_cancel_leaveTimer: "benign s s1 \<Longrightarrow> benign s (cancel_leaveTimer s1)"
  by (auto simp add: cancel_leaveTimer_def Let_def intro!: benign_intros split: option.splits)

lemma benign_onCardEnter: "benign s (onCardEnter now k s)"
  by (auto simp add: onCardEnter_def onCardEnter_proceed_def Let_def
      intro!: benign_intros benign_dropCard benign_liftCard benign_cancel_leaveTimer split: option.splits)

lemma benign_onCardLeave: "benign s (onCardLeave now k ev rect s)"
  by (auto simp add: onCardLeave_def Let_def simp del: cards_get_def
      intro!: benign_intros split: option.splits)

lemma benign_leaveTimeout_callback: "benign s s1 \<Longrightarrow> benign s (leaveTimeout_callback now k s1)"
  by (auto simp add: leaveTimeout_callback_def Let_def intro!: benign_intros benign_dropCard)

lemma benign_timeout_fires: "benign s (timeout_fires now h s)"
  by (auto simp add: timeout_fires_def intro!: benign_intros benign_leaveTimeout_callback split: option.splits)

lemma benign_containerPointerLeave: "benign s (containerPointerLeave now s)"
  by (auto simp add: containerPointerLeave_def Let_def intro!: benign_intros benign_dropCard split: option.splits)

lemma benign_setCardVisible: "benign s (setCardVisible now k v s)"
  by (auto simp add: setCardVisible_def setCardVisible_show_def setCardVisible_drop_def Let_def
      simp del: cards_get_def intro!: benign_intros benign_dropCard split: option.splits)

lemma benign_restack_one: "benign s s1 \<Longrightarrow> benign s (restack_one now k idx s1)"
  by (auto simp add: restack_one_def Let_def simp del: cards_get_def
      intro!: benign_intros benign_dropCard split: option.splits)

lemma benign_restack_each: "benign s s1 \<Longrightarrow> benign s (restack_each now ids idx s1)"
  by (induction ids arbitrary: idx s1) (simp_all add: benign_restack_one)

lemma benign_restackVisible: "benign s (restackVisible now a s)"
  by (simp add: restackVisible_def benign_restack_each split: option.splits)

lemma benign_moveToStack: "benign s (moveToStack now rnd k s)"
  by (auto simp add: moveToStack_def Let_def simp del: cards_get_def intro!: benign_intros split: option.splits)

lemma benign_simple:
  "benign s (setFocus level s)" "benign s (setMotionEnabled enabled s)"
  "benign s (updateTarget clientX clientY rect s)" "benign s (touchMove touch rect s)"
  "benign s (updateCameraMotion now s)"
  by (simp_all add: benign_def oid_at_def)


lemma addCard_found:
  assumes "getElementById (document s) k = Some el"
  shows "scene (addCard now k s) = scene s @ [nextOid s]"
    and "nextOid (addCard now k s) = Suc (nextOid s)"
    and "oid_at (addCard now k s) j = (if j = k then Some (nextOid s) else oid_at s j)"
    and "\<forall>tw\<in>set (tweens (addCard now k s)). tw \<in> set (tweens s) \<or> onComplete tw = NoCallback"
  using assms
  by (auto simp add: addCard_def addCard_tracked_def Let_def new_CSS3DObject_def oid_at_def
      start_tween_def addCard_map)

lemma addCard_missing:
  "getElementById (document s) k = None \<Longrightarrow> benign s (addCard now k s)"
  by (simp add: addCard_def benign_def oid_at_def)

lemma oids_ok_addCard: "oids_ok s \<Longrightarrow> oids_ok (addCard now k s)"
proof (cases "getElementById (document s) k")
  case None
  assume "oids_ok s" then show ?thesis using addCard_missing[OF None] by (rule oids_ok_benign)
next
  case (Some el)
  note f = addCard_found[OF Some, of now]
  assume o: "oids_ok s"
  have lt: "\<And>j ob. oid_at s j = Some ob \<Longrightarrow> ob < nextOid s \<and> ob \<in> set (scene s)"
    using o by (simp add: oids_ok_def)
  have uniq: "\<And>i j ob. oid_at s i = Some ob \<Longrightarrow> oid_at s j = Some ob \<Longrightarrow> i = j"
    using o unfolding oids_ok_def by blast
  have sc: "distinct (scene s)" "\<And>ob. ob \<in> set (scene s) \<Longrightarrow> ob < nextOid s"
    using o by (simp_all add: oids_ok_def)
  have tw: "\<And>tw. tw \<in> set (tweens s) \<Longrightarrow> callback_ok s (onComplete tw)"
    using o by (simp add: oids_ok_def)
  have 1: "\<forall>i ob. oid_at (addCard now k s) i = Some ob \<longrightarrow>
             ob < nextOid (addCard now k s) \<and> ob \<in> set (scene (addCard now k s))"
    using lt by (auto simp add: f less_Suc_eq split: if_splits)
  have 2: "\<forall>i j ob. oid_at (addCard now k s) i = Some ob \<longrightarrow>
             oid_at (addCard now k s) j = Some ob \<longrightarrow> i = j"
    using lt uniq by (auto simp add: f split: if_splits)
  have 3: "distinct (scene (addCard now k s))" "\<forall>ob\<in>set (scene (addCard now k s)). ob < nextOid (addCard now k s)"
    using sc by (auto simp add: f less_Suc_eq)
  have 4: "callback_ok (addCard now k s) (onComplete tw)" if "tw \<in> set (tweens (addCard now k s))" for tw
  proof -
    from that f(4) have "tw \<in> set (tweens s) \<or> onComplete tw = NoCallback" by blast
    then show ?thesis
    proof
      assume "onComplete tw = NoCallback" then show ?thesis by (simp add: callback_ok_def)
    next
      assume "tw \<in> set (tweens s)"
      then have "callback_ok s (onComplete tw)" by (rule tw)
      then show ?thesis
        by (auto simp add: callback_ok_def f less_Suc_eq split: callback.splits if_splits)
    qed
  qed
  show ?thesis unfolding oids_ok_def using 1 2 3 4 by blast
qed

lemma discard_found:
  assumes "map_of (cards s) k = Some c"
  shows "tweens (discard now k s) =
           tweens s @ [\<lparr> tid = nextTid s, target = oid c, property = Position,
                          destination = [(''x'', - 1000), (''y'', 0), (''z'', 0)], duration = 600,
                          easingFn = Back_In, startTime = now,
                          onComplete = DiscardComplete (oid c) k \<rparr>]"
  using assms by (simp add: discard_def start_tween_def)

lemma oid_at_discard [simp]: "oid_at (discard now k s) = oid_at s"
  by (simp add: oid_at_def fun_eq_iff)

lemma oids_ok_discard: "oids_ok s \<Longrightarrow> oids_ok (discard now k s)"
proof (cases "map_of (cards s) k")
  case None
  then have "discard now k s = s" by (simp add: discard_def)
  then show "oids_ok s \<Longrightarrow> ?thesis" by simp
next
  case (Some c)
  assume o: "oids_ok s"
  have k: "oid_at s k = Some (oid c)" using Some by (simp add: oid_at_def)
  have "callback_ok s (DiscardComplete (oid c) k)"
    using o k unfolding oids_ok_def callback_ok_def by auto
  then show ?thesis
    using o unfolding oids_ok_def
    by (auto simp add: discard_found[OF Some] callback_ok_def split: callback.splits)
qed

lemma oid_at_run_callback:
  "oid_at (run_callback cb s) j =
     (case cb of DiscardComplete ob k \<Rightarrow> (if j = k then None else oid_at s j) | _ \<Rightarrow> oid_at s j)"
  by (cases cb) (simp_all add: oid_at_def)

lemma oids_ok_run_callback:
  assumes "oids_ok s" "callback_ok s cb"
  shows "oids_ok (run_callback cb s)"
proof (cases cb)
  case (DiscardComplete ob k)
  have own: "\<And>j. oid_at s j = Some ob \<Longrightarrow> j = k"
    using assms(2) by (simp add: DiscardComplete callback_ok_def)
  have sc: "scene (run_callback cb s) = remove1 ob (scene s)" "nextOid (run_callback cb s) = nextOid s"
    "tweens (run_callback cb s) = tweens s"
    by (simp_all add: DiscardComplete)
  have at: "\<And>j. oid_at (run_callback cb s) j = (if j = k then None else oid_at s j)"
    by (simp add: DiscardComplete oid_at_def)
  show ?thesis
    using assms(1) own unfolding oids_ok_def callback_ok_def sc at
    by (auto split: callback.splits if_splits)
qed (use assms in simp_all)

lemma callback_ok_run_callback:
  "callback_ok s cb' \<Longrightarrow> callback_ok (run_callback cb s) cb'"
  by (cases cb) (auto simp add: callback_ok_def oid_at_def split: callback.splits)

lemma oids_ok_stop_tween: "oids_ok s \<Longrightarrow> oids_ok (stop_tween t s)"
  by (erule oids_ok_benign) (rule benign_stop_tween[OF benign_refl])

lemma callback_ok_stop_tween [simp]: "callback_ok (stop_tween t s) cb = callback_ok s cb"
  by (cases cb) (simp_all add: callback_ok_def oid_at_def)

lemma oids_ok_update_tweens:
  "oids_ok s \<Longrightarrow> \<forall>tw\<in>set tws. callback_ok s (onComplete tw) \<Longrightarrow> oids_ok (update_tweens now tws s)"
proof (induction tws arbitrary: s)
  case Nil
  then show ?case by simp
next
  case (Cons tw tws)
  show ?case
  proof (cases "tween_complete now tw")
    case False
    then show ?thesis using Cons by simp
  next
    case True
    let ?s = "stop_tween (tid tw) (run_callback (onComplete tw) s)"
    have "oids_ok ?s"
      using Cons.prems by (simp add: oids_ok_stop_tween oids_ok_run_callback)
    moreover have "\<forall>tw'\<in>set tws. callback_ok ?s (onComplete tw')"
      using Cons.prems(2) by (simp add: callback_ok_run_callback)
    ultimately show ?thesis using True by (simp add: Cons.IH)
  qed
qed

lemma oids_ok_animate: "oids_ok s \<Longrightarrow> oids_ok (animate now s)"
proof -
  assume o: "oids_ok s"
  then have "oids_ok (update_tweens now (tweens s) s)"
    by (rule oids_ok_update_tweens) (use o in \<open>simp add: oids_ok_def\<close>)
  then have "oids_ok (TWEEN_update now s)" by (simp add: TWEEN_update_def)
  then show ?thesis
    unfolding animate_def using benign_simple(5) by (rule oids_ok_benign)
qed

lemma oids_ok_step: "oids_ok s \<Longrightarrow> oids_ok (step e s)"
proof (cases e)
  case (HostCreatesElement k el)
  have "benign s (s\<lparr>document := (document s)(k \<mapsto> el)\<rparr>)" by (rule benign_document) simp
  then show "oids_ok s \<Longrightarrow> ?thesis" unfolding HostCreatesElement by (simp add: oids_ok_benign)
qed (auto simp add: oids_ok_addCard oids_ok_discard oids_ok_animate
       intro: oids_ok_benign benign_moveToStack benign_setCardVisible benign_restackVisible benign_simple
         benign_onCardEnter benign_onCardLeave benign_timeout_fires benign_containerPointerLeave)

lemma reachable_oids_ok: "reachable s \<Longrightarrow> oids_ok s"
proof (induction rule: reachable.induct)
  case (created doc reduced rnd now)
  show ?case
    by (simp add: oids_ok_def oid_at_def createCardEngine_def animate_def TWEEN_update_def init_def)
next
  case (stepped s e)
  from stepped.IH show ?case by (rule oids_ok_step)
qed

lemma addCard_index_eq:
  "addCard_index k s =
     (case getElementById (document s) k of None \<Rightarrow> None
      | Some el \<Rightarrow> Some (if k \<in> set (map fst (cards s)) then length (cards s) else Suc (length (cards s))))"
  by (simp add: addCard_index_def addCard_tracked_def Let_def cards_set_def length_AList_update
      split: option.splits)

lemma map_of_keys: "map_of al k = Some v \<Longrightarrow> k \<in> set (map fst al)"
  by (metis map_of_eq_None_iff option.distinct(1) set_map)

lemma reachable_demo_two_cards: "reachable demo_two_cards"
  unfolding demo_two_cards_def demo_engine_def
  by (intro reachable_run reachable.created)

lemma demo_two_cards_lookup:
  "map_option oid (cards_get demo_two_cards ''a'') = Some 0"
  "getElementById (document demo_two_cards) ''a'' \<noteq> None"
  "cards_size demo_two_cards = 2"
  "scene demo_two_cards = [0, 1]"
  "nextOid demo_two_cards = 2"
  by (simp_all add: demo_defs engine_defs Let_def)

subsection \<open>Tween identities and the frame update\<close>

lemma tids_ok_same: "tweens s' = tweens s \<Longrightarrow> nextTid s' = nextTid s \<Longrightarrow> tids_ok s \<Longrightarrow> tids_ok s'"
  by (simp add: tids_ok_def)

lemma tids_ok_start_tween: "tids_ok s \<Longrightarrow> tids_ok (start_tween now ob p d ms e cb s)"
  by (auto simp add: tids_ok_def start_tween_def less_Suc_eq)

lemma tids_ok_stop_tween: "tids_ok s \<Longrightarrow> tids_ok (stop_tween t s)"
  by (auto simp add: tids_ok_def stop_tween_def distinct_map_filter)

lemma tids_ok_stop_hoverTween: "tids_ok s \<Longrightarrow> tids_ok (stop_hoverTween c s)"
  by (simp add: stop_hoverTween_def tids_ok_stop_tween split: option.splits)

lemma tids_ok_modify_object: "tids_ok s \<Longrightarrow> tids_ok (modify_object k f s)"
  by (simp add: tids_ok_def)

lemma tids_ok_hoverState: "tids_ok s \<Longrightarrow> tids_ok (s\<lparr>hoverState := h\<rparr>)"
  by (simp add: tids_ok_def)

lemma tids_ok_parallaxTarget: "tids_ok s \<Longrightarrow> tids_ok (s\<lparr>parallaxTarget := p\<rparr>)"
  by (simp add: tids_ok_def)

lemma tids_ok_document: "tids_ok s \<Longrightarrow> tids_ok (s\<lparr>document := p\<rparr>)"
  by (simp add: tids_ok_def)

lemma tids_ok_clearTimeout: "tids_ok s \<Longrightarrow> tids_ok (clearTimeout h s)"
  by (simp add: tids_ok_def)

lemma tids_ok_setTimeout: "tids_ok s \<Longrightarrow> tids_ok (setTimeout due k s)"
  by (simp add: tids_ok_def)

lemmas tids_intros = tids_ok_start_tween tids_ok_stop_tween tids_ok_stop_hoverTween tids_ok_modify_object
  tids_ok_hoverState tids_ok_parallaxTarget tids_ok_document tids_ok_clearTimeout tids_ok_setTimeout

lemma tids_ok_dropCard: "tids_ok s \<Longrightarrow> tids_ok (dropCard now k f s)"
  by (auto simp add: dropCard_def Let_def intro!: tids_intros split: option.splits)

lemma tids_ok_liftCard: "tids_ok s \<Longrightarrow> tids_ok (liftCard now k s)"
  by (auto simp add: liftCard_def Let_def intro!: tids_intros split: option.splits)

lemma tids_ok_cancel_leaveTimer: "tids_ok s \<Longrightarrow> tids_ok (cancel_leaveTimer s)"
  by (auto simp add: cancel_leaveTimer_def Let_def intro!: tids_intros split: option.splits)

lemma tids_ok_onCardEnter: "tids_ok s \<Longrightarrow> tids_ok (onCardEnter now k s)"
  by (auto simp add: onCardEnter_def onCardEnter_proceed_def Let_def
      intro!: tids_intros tids_ok_dropCard tids_ok_liftCard tids_ok_cancel_leaveTimer split: option.splits)

lemma tids_ok_onCardLeave: "tids_ok s \<Longrightarrow> tids_ok (onCardLeave now k ev rect s)"
  by (auto simp add: onCardLeave_def Let_def simp del: cards_get_def
      intro!: tids_intros split: option.splits)

lemma tids_ok_leaveTimeout_callback: "tids_ok s \<Longrightarrow> tids_ok (leaveTimeout_callback now k s)"
  by (auto simp add: leaveTimeout_callback_def Let_def intro!: tids_intros tids_ok_dropCard)

lemma tids_ok_timeout_fires: "tids_ok s \<Longrightarrow> tids_ok (timeout_fires now h s)"
  by (auto simp add: timeout_fires_def intro!: tids_intros tids_ok_leaveTimeout_callback split: option.splits)

lemma tids_ok_containerPointerLeave: "tids_ok s \<Longrightarrow> tids_ok (containerPointerLeave now s)"
  by (auto simp add: containerPointerLeave_def Let_def intro!: tids_intros tids_ok_dropCard split: option.splits)

lemma tids_ok_setCardVisible: "tids_ok s \<Longrightarrow> tids_ok (setCardVisible now k v s)"
  by (auto simp add: setCardVisible_def setCardVisible_show_def setCardVisible_drop_def Let_def
      simp del: cards_get_def intro!: tids_intros tids_ok_dropCard split: option.splits)

lemma tids_ok_restack_one: "tids_ok s \<Longrightarrow> tids_ok (restack_one now k idx s)"
  by (auto simp add: restack_one_def Let_def simp del: cards_get_def
      intro!: tids_intros tids_ok_dropCard split: option.splits)

lemma tids_ok_restack_each: "tids_ok s \<Longrightarrow> tids_ok (restack_each now ids idx s)"
  by (induction ids arbitrary: idx s) (simp_all add: tids_ok_restack_one)

lemma tids_ok_restackVisible: "tids_ok s \<Longrightarrow> tids_ok (restackVisible now a s)"
  by (simp add: restackVisible_def tids_ok_restack_each split: option.splits)

lemma tids_ok_moveToStack: "tids_ok s \<Longrightarrow> tids_ok (moveToStack now rnd k s)"
  by (auto simp add: moveToStack_def Let_def simp del: cards_get_def intro!: tids_intros split: option.splits)

lemma tids_ok_discard: "tids_ok s \<Longrightarrow> tids_ok (discard now k s)"
  by (auto simp add: discard_def Let_def simp del: cards_get_def intro!: tids_intros split: option.splits)

lemma tids_ok_addCard: "tids_ok s \<Longrightarrow> tids_ok (addCard now k s)"
proof (cases "getElementById (document s) k")
  case None
  then show "tids_ok s \<Longrightarrow> ?thesis" by (simp add: addCard_def tids_ok_def)
next
  case (Some el)
  have "tids_ok (addCard_tracked k el s)" if "tids_ok s"
    using that by (simp add: tids_ok_def addCard_tracked_def Let_def cards_set_def)
  then show "tids_ok s \<Longrightarrow> ?thesis"
    using Some by (auto simp add: addCard_def Let_def intro!: tids_intros)
qed

lemma tids_ok_run_callback: "tids_ok s \<Longrightarrow> tids_ok (run_callback cb s)"
  by (cases cb) (simp_all add: tids_ok_def)

lemma tids_ok_update_tweens: "tids_ok s \<Longrightarrow> tids_ok (update_tweens now tws s)"
  by (induction tws arbitrary: s) (simp_all add: tids_ok_stop_tween tids_ok_run_callback)

lemma tids_ok_animate: "tids_ok s \<Longrightarrow> tids_ok (animate now s)"
proof -
  assume "tids_ok s"
  then have "tids_ok (update_tweens now (tweens s) s)" by (rule tids_ok_update_tweens)
  then show ?thesis by (simp add: tids_ok_def animate_def TWEEN_update_def updateCameraMotion_def Let_def)
qed

lemma tids_ok_step: "tids_ok s \<Longrightarrow> tids_ok (step e s)"
  by (cases e)
     (simp_all add: tids_ok_addCard tids_ok_moveToStack tids_ok_discard tids_ok_setCardVisible
        tids_ok_restackVisible tids_ok_onCardEnter tids_ok_onCardLeave tids_ok_timeout_fires
        tids_ok_containerPointerLeave tids_ok_animate tids_ok_document,
      simp_all add: tids_ok_def)

lemma reachable_tids_ok: "reachable s \<Longrightarrow> tids_ok s"
proof (induction rule: reachable.induct)
  case (created doc reduced rnd now)
  show ?case
    by (simp add: tids_ok_def createCardEngine_def animate_def TWEEN_update_def init_def)
next
  case (stepped s e)
  from stepped.IH show ?case by (rule tids_ok_step)
qed

lemma update_tweens_map:
  "map_of (cards (update_tweens t tws s)) k =
     (if \<exists>tw\<in>set tws. tween_complete t tw \<and> discards k tw then None else map_of (cards s) k)"
proof (induction tws arbitrary: s)
  case Nil
  show ?case by simp
next
  case (Cons tw tws)
  show ?case
    by (cases "onComplete tw") (auto simp add: Cons.IH)
qed

lemma update_tweens_scene:
  "distinct (scene s) \<Longrightarrow>
   distinct (scene (update_tweens t tws s)) \<and>
   set (scene (update_tweens t tws s)) =
     set (scene s) - {ob. \<exists>tw\<in>set tws. tween_complete t tw \<and> (\<exists>j. onComplete tw = DiscardComplete ob j)}"
proof (induction tws arbitrary: s)
  case Nil
  then show ?case by simp
next
  case (Cons tw tws)
  show ?case
  proof (cases "tween_complete t tw")
    case False
    then show ?thesis using Cons.IH[OF Cons.prems] by simp
  next
    case True
    let ?s = "stop_tween (tid tw) (run_callback (onComplete tw) s)"
    have d: "distinct (scene (run_callback (onComplete tw) s))"
      using Cons.prems by (cases "onComplete tw") simp_all
    then have d': "distinct (scene ?s)" by simp
    have sc: "set (scene (run_callback (onComplete tw) s)) =
                set (scene s) - {ob. \<exists>j. onComplete tw = DiscardComplete ob j}"
      using Cons.prems by (cases "onComplete tw") auto
    have "distinct (scene (update_tweens t tws ?s)) \<and>
          set (scene (update_tweens t tws ?s)) =
            (set (scene s) - {ob. \<exists>j. onComplete tw = DiscardComplete ob j}) -
            {ob. \<exists>tw\<in>set tws. tween_complete t tw \<and> (\<exists>j. onComplete tw = DiscardComplete ob j)}"
      using Cons.IH[OF d'] by (simp add: sc)
    then show ?thesis
      using True by auto
  qed
qed

lemma update_tweens_tweens:
  "tweens (update_tweens t tws s) =
     filter (\<lambda>tw. tid tw \<notin> tid ` {x \<in> set tws. tween_complete t x}) (tweens s)"
proof (induction tws arbitrary: s)
  case Nil
  show ?case by simp
next
  case (Cons tw tws)
  show ?case
    by (cases "tween_complete t tw") (auto simp add: Cons.IH stop_tween_def intro!: filter_cong)
qed

lemma animate_tweens:
  assumes "tids_ok s"
  shows "tweens (animate t s) = filter (\<lambda>tw. \<not> tween_complete t tw) (tweens s)"
proof -
  have inj: "inj_on tid (set (tweens s))"
    using assms by (simp add: tids_ok_def distinct_map)
  have "tweens (animate t s) = tweens (update_tweens t (tweens s) s)"
    by (simp add: animate_def TWEEN_update_def updateCameraMotion_def Let_def)
  also have "\<dots> = filter (\<lambda>tw. tid tw \<notin> tid ` {x \<in> set (tweens s). tween_complete t x}) (tweens s)"
    by (rule update_tweens_tweens)
  also have "\<dots> = filter (\<lambda>tw. \<not> tween_complete t tw) (tweens s)"
  proof (rule filter_cong[OF refl])
    fix tw assume m: "tw \<in> set (tweens s)"
    show "(tid tw \<notin> tid ` {x \<in> set (tweens s). tween_complete t x}) = (\<not> tween_complete t tw)"
      using m inj by (auto dest: inj_onD)
  qed
  finally show ?thesis .
qed

lemma step_keeps_key:
  assumes "\<And>t. e \<noteq> AnimationFrame t" "map_of (cards s) k \<noteq> None"
  shows "map_of (cards (step e s)) k \<noteq> None"
proof -
  have "set (map fst (cards s)) \<subseteq> set (map fst (cards (step e s)))"
    using assms(1) by (cases e) (auto simp add: addCard_keys)
  then have "fst ` set (cards s) \<subseteq> fst ` set (cards (step e s))" by simp
  then show ?thesis using assms(2) by (auto simp add: map_of_eq_None_iff)
qed

lemma key_leaves_only_in_frame:
  assumes "map_of (cards s) k \<noteq> None" "map_of (cards (step e s)) k = None"
  shows "\<exists>t tw. e = AnimationFrame t \<and> tw \<in> set (tweens s) \<and> tween_complete t tw \<and> discards k tw"
proof (cases "\<exists>t. e = AnimationFrame t")
  case False
  then show ?thesis using step_keeps_key[of e s k] assms by blast
next
  case True
  then obtain t where e: "e = AnimationFrame t" by blast
  have "map_of (cards (update_tweens t (tweens s) s)) k = None"
    using assms(2) by (simp add: e)
  then have "\<exists>tw\<in>set (tweens s). tween_complete t tw \<and> discards k tw"
    using assms(1) by (simp add: update_tweens_map split: if_splits)
  then show ?thesis using e by blast
qed

subsection \<open>Dealing a sequence of cards\<close>



lemma created_document [simp]: "document (createCardEngine doc reduced rnd now) = doc"
  by (simp add: createCardEngine_def init_def)





subsection \<open>The page of the scenarios\<close>

lemma demo_staged_document:
  "getElementById (document demo_staged) ''stage'' = Some demo_container"
  by (simp add: demo_staged_def engine_defs Let_def)

lemma demo_page_surface:
  "contains_surface demo_page ''stage''" "\<not> contains_surface demo_page ''a''"
  by (simp_all add: contains_surface_def demo_page_def)

lemma demo_staged_facts:
  "getElementById (document demo_staged) ''stage'' \<noteq> None"
  "getElementById (document demo_staged) ''a'' \<noteq> None"
  by (simp_all add: demo_staged_def demo_document_def engine_defs Let_def)

section \<open>The claims\<close>

text \<open>
  Claim C1. In every state an engine can reach, whatever the order of public operations,
  pointer events, due timeouts and frames, at most one tracked card has its \<open>hovered\<close>
  flag set. When a card \<open>old\<close> is hovered and the pointer enters another tracked card
  \<open>new\<close> once the switch lock has run out, \<open>_onCardEnter\<close> first drops \<open>old\<close> with force
  (after which no card is hovered) and then lifts \<open>new\<close>: afterwards \<open>new\<close> is the one
  hovered card and the active identifier.
\<close>

theorem hovered_at_most_one:
  assumes "reachable s"
  shows "length (filter (\<lambda>(k, c). hovered c) (cards s)) \<le> 1 \<and>
         (\<forall>old new now.
            old \<noteq> new \<and> cards_has s new \<and> (\<exists>c. cards_get s old = Some c \<and> hovered c) \<and>
            \<not> now < switchLockUntil (hoverState s) \<longrightarrow>
              onCardEnter now new s =
                onCardEnter_proceed now new (dropCard now old True (cancel_leaveTimer s)) \<and>
              (\<forall>k c. cards_get (dropCard now old True (cancel_leaveTimer s)) k = Some c \<longrightarrow> \<not> hovered c) \<and>
              (\<forall>k c. cards_get (onCardEnter now new s) k = Some c \<longrightarrow> (hovered c \<longleftrightarrow> k = new)) \<and>
              (\<exists>c. cards_get (onCardEnter now new s) new = Some c \<and> hovered c) \<and>
              activeId (hoverState (onCardEnter now new s)) = Some new)"
proof -
  have inv: "keys_ok s" "homes_ok s" "hover_ok s"
    using reachable_invariants[OF assms] by simp_all
  have one: "length (filter (\<lambda>(k, c). hovered c) (cards s)) \<le> 1"
    using inv by (intro filter_at_most_one[where a = "activeId (hoverState s)"])
      (simp_all add: keys_ok_def hover_ok_def only_hovered_def)
  have switch: "onCardEnter now new s =
                onCardEnter_proceed now new (dropCard now old True (cancel_leaveTimer s)) \<and>
              (\<forall>k c. cards_get (dropCard now old True (cancel_leaveTimer s)) k = Some c \<longrightarrow> \<not> hovered c) \<and>
              (\<forall>k c. cards_get (onCardEnter now new s) k = Some c \<longrightarrow> (hovered c \<longleftrightarrow> k = new)) \<and>
              (\<exists>c. cards_get (onCardEnter now new s) new = Some c \<and> hovered c) \<and>
              activeId (hoverState (onCardEnter now new s)) = Some new"
    if h: "old \<noteq> new" "cards_has s new" "cards_get s old = Some c" "hovered c"
      "\<not> now < switchLockUntil (hoverState s)" for old new now c
  proof -
    let ?d = "dropCard now old True (cancel_leaveTimer s)"
    have act: "activeId (hoverState s) = Some old"
      using inv(3) h(3,4) by (simp add: hover_ok_def only_hovered_def)
    have ne: "old \<noteq> []"
      using keys_ok_empty_key[OF inv(1)] h(3) by auto
    have eq: "onCardEnter now new s = onCardEnter_proceed now new ?d"
      using act ne h(1,5) by (rule onCardEnter_switch)
    have "only_hovered (Some old) (cancel_leaveTimer s)" "homes_ok (cancel_leaveTimer s)"
      using inv act by (simp_all add: hover_ok_def only_hovered_def)
    then have none: "only_hovered None ?d"
      using none_hovered_dropCard by blast
    have homes: "homes_ok ?d"
      using inv(2) by (simp add: homes_ok_dropCard)
    have only: "\<forall>k c. cards_get (onCardEnter_proceed now new ?d) k = Some c \<longrightarrow> (hovered c \<longleftrightarrow> k = new)"
      using none homes unfolding only_hovered_def homes_ok_def
      by (auto simp add: onCardEnter_proceed_map split: option.splits if_splits)
    have "map fst (cards (onCardEnter_proceed now new ?d)) = map fst (cards s)"
      by simp
    then have "fst ` set (cards (onCardEnter_proceed now new ?d)) = fst ` set (cards s)"
      by (rule keys_image)
    then have "map_of (cards (onCardEnter_proceed now new ?d)) new \<noteq> None"
      using h(2) by (simp add: map_of_eq_None_iff)
    then have "\<exists>c. cards_get (onCardEnter_proceed now new ?d) new = Some c \<and> hovered c"
      using only by auto
    then show ?thesis using none eq only by (simp add: only_hovered_def)
  qed
  show ?thesis using one switch by blast
qed


theorem hovered_at_most_one_witness:
  "reachable demo_hovered \<and>
   (''a'' \<noteq> ''b'' \<and> cards_has demo_hovered ''b'' \<and>
    (\<exists>c. cards_get demo_hovered ''a'' = Some c \<and> hovered c) \<and>
    \<not> 200 < switchLockUntil (hoverState demo_hovered)) \<and>
   length (filter (\<lambda>(k, c). hovered c) (cards demo_hovered)) \<le> 1 \<and>
   onCardEnter 200 ''b'' demo_hovered =
     onCardEnter_proceed 200 ''b'' (dropCard 200 ''a'' True (cancel_leaveTimer demo_hovered)) \<and>
   (\<exists>c. cards_get (onCardEnter 200 ''b'' demo_hovered) ''b'' = Some c \<and> hovered c) \<and>
   activeId (hoverState (onCardEnter 200 ''b'' demo_hovered)) = Some ''b''"
proof -
  have h: "''a'' \<noteq> ''b'' \<and> cards_has demo_hovered ''b'' \<and>
     (\<exists>c. cards_get demo_hovered ''a'' = Some c \<and> hovered c) \<and>
     \<not> 200 < switchLockUntil (hoverState demo_hovered)"
    using demo_hovered_facts by auto
  note t = hovered_at_most_one[OF reachable_demo_hovered]
  from t have one: "length (filter (\<lambda>(k, c). hovered c) (cards demo_hovered)) \<le> 1" ..
  from t have "old \<noteq> new \<and> cards_has demo_hovered new \<and>
       (\<exists>c. cards_get demo_hovered old = Some c \<and> hovered c) \<and>
       \<not> now < switchLockUntil (hoverState demo_hovered) \<longrightarrow>
       onCardEnter now new demo_hovered =
         onCardEnter_proceed now new (dropCard now old True (cancel_leaveTimer demo_hovered)) \<and>
       (\<forall>k c. cards_get (dropCard now old True (cancel_leaveTimer demo_hovered)) k = Some c \<longrightarrow> \<not> hovered c) \<and>
       (\<forall>k c. cards_get (onCardEnter now new demo_hovered) k = Some c \<longrightarrow> (hovered c \<longleftrightarrow> k = new)) \<and>
       (\<exists>c. cards_get (onCardEnter now new demo_hovered) new = Some c \<and> hovered c) \<and>
       activeId (hoverState (onCardEnter now new demo_hovered)) = Some new" for old new now
    by (elim conjE allE)
  from this[of "''a''" "''b''" 200] h
  have b: "onCardEnter 200 ''b'' demo_hovered =
         onCardEnter_proceed 200 ''b'' (dropCard 200 ''a'' True (cancel_leaveTimer demo_hovered)) \<and>
       (\<forall>k c. cards_get (dropCard 200 ''a'' True (cancel_leaveTimer demo_hovered)) k = Some c \<longrightarrow> \<not> hovered c) \<and>
       (\<forall>k c. cards_get (onCardEnter 200 ''b'' demo_hovered) k = Some c \<longrightarrow> (hovered c \<longleftrightarrow> k = ''b'')) \<and>
       (\<exists>c. cards_get (onCardEnter 200 ''b'' demo_hovered) ''b'' = Some c \<and> hovered c) \<and>
       activeId (hoverState (onCardEnter 200 ''b'' demo_hovered)) = Some ''b''"
    by (rule mp)
  from b have b': "onCardEnter 200 ''b'' demo_hovered =
         onCardEnter_proceed 200 ''b'' (dropCard 200 ''a'' True (cancel_leaveTimer demo_hovered)) \<and>
       (\<exists>c. cards_get (onCardEnter 200 ''b'' demo_hovered) ''b'' = Some c \<and> hovered c) \<and>
       activeId (hoverState (onCardEnter 200 ''b'' demo_hovered)) = Some ''b''"
    by (elim conjE, intro conjI)
  show ?thesis
    by (rule conjI[OF reachable_demo_hovered conjI[OF h conjI[OF one b']]])
qed

text \<open>
  Claim C2, as stated, fails for one call. The engine is constructed on the container
  \<open>stage\<close>; \<open>addCard('stage')\<close> finds the container and asks the DOM to append it to the
  render surface, its own descendant: the \<open>HierarchyRequestError\<close> of \<open>appendChild\<close>
  reaches the caller, no statement of the class catching it.
\<close>

theorem addCard_container_throws_counterexample:
  "containerId demo_page = ''stage'' \<and>
   getElementById (document demo_staged) ''stage'' = Some demo_container \<and>
   call demo_page 5 0 (Op_addCard ''stage'') demo_staged = Throws HierarchyRequestError demo_staged"
  by (simp add: demo_staged_document addCard_call_def appendChild_def contains_surface_def demo_page_def)

text \<open>
  Claim C2, amended. For each of the seven public operations and every argument, the call
  returns, unless it is \<open>addCard\<close> of an identifier whose element is the container or
  another element that holds the render surface; an exception reaches the caller only
  from such a call, it is the \<open>HierarchyRequestError\<close>, and the state is then as it was.
  \<open>moveToStack\<close>, \<open>discard\<close> and \<open>setCardVisible\<close> with an identifier that is not in the
  active set return with the state as it was, and so does \<open>restackVisible\<close> when none of
  the given identifiers is in the active set or when its argument is not an array.
  \<open>addCard\<close> with no matching element returns with the error appended to the console and
  nothing else changed.
\<close>

theorem public_calls_outcome:
  "((\<forall>k. op = Op_addCard k \<longrightarrow> getElementById (document s) k = None \<or> \<not> contains_surface p k) \<longrightarrow>
      (\<exists>s'. call p now rnd op s = Returns s')) \<and>
   (call p now rnd op s = Throws e s' \<longrightarrow>
      e = HierarchyRequestError \<and> s' = s \<and>
      (\<exists>k. op = Op_addCard k \<and> getElementById (document s) k \<noteq> None \<and> contains_surface p k)) \<and>
   (getElementById (document s) k \<noteq> None \<longrightarrow> contains_surface p k \<longrightarrow>
      call p now rnd (Op_addCard k) s = Throws HierarchyRequestError s) \<and>
   (cards_get s k = None \<longrightarrow>
      call p now rnd (Op_moveToStack k) s = Returns s \<and>
      call p now rnd (Op_discard k) s = Returns s \<and>
      call p now rnd (Op_setCardVisible k v) s = Returns s) \<and>
   ((\<forall>j\<in>set ids. cards_get s j = None) \<longrightarrow>
      call p now rnd (Op_restackVisible (Given (Some ids))) s = Returns s) \<and>
   call p now rnd (Op_restackVisible (Given None)) s = Returns s \<and>
   (getElementById (document s) k = None \<longrightarrow>
      call p now rnd (Op_addCard k) s =
        Returns (s\<lparr>console := console s @ [Error (''[CardEngine] Element not found: '' @ k)]\<rparr>))"
proof -
  have returns: "\<exists>s'. call p now rnd op s = Returns s'"
    if "\<forall>k. op = Op_addCard k \<longrightarrow> getElementById (document s) k = None \<or> \<not> contains_surface p k"
    using that by (cases op) (auto simp add: addCard_call_def appendChild_def split: option.splits)
  have only: "e = HierarchyRequestError \<and> s' = s \<and>
      (\<exists>k. op = Op_addCard k \<and> getElementById (document s) k \<noteq> None \<and> contains_surface p k)"
    if "call p now rnd op s = Throws e s'"
    using that
    by (cases op; cases e)
       (auto simp add: addCard_call_def appendChild_def split: option.splits if_splits)
  have throws: "call p now rnd (Op_addCard k) s = Throws HierarchyRequestError s"
    if "getElementById (document s) k \<noteq> None" "contains_surface p k"
    using that by (auto simp add: addCard_call_def appendChild_def)
  have restack: "restackVisible now (Given (Some ids)) s = s" if "\<forall>j\<in>set ids. cards_get s j = None"
    using restack_each_unknown[OF that] by (simp add: restackVisible_def)
  have noop: "moveToStack now rnd k s = s" "discard now k s = s" "setCardVisible now k v s = s"
    if "cards_get s k = None"
    using that by (simp_all add: moveToStack_def discard_def setCardVisible_def)
  have missing: "call p now rnd (Op_addCard k) s =
        Returns (s\<lparr>console := console s @ [Error (''[CardEngine] Element not found: '' @ k)]\<rparr>)"
    if "getElementById (document s) k = None"
    using that by (simp add: addCard_call_def addCard_def)
  have nonarray: "restackVisible now (Given None) s = s"
    by (simp add: restackVisible_def)
  show ?thesis
    using returns only throws restack noop missing nonarray by simp
qed

theorem public_calls_outcome_witness:
  "cards_get demo_engine ''a'' = None \<and>
   getElementById (document demo_engine) ''zz'' = None \<and>
   call demo_page 5 0 (Op_moveToStack ''a'') demo_engine = Returns demo_engine \<and>
   call demo_page 5 0 (Op_discard ''a'') demo_engine = Returns demo_engine \<and>
   call demo_page 5 0 (Op_setCardVisible ''a'' (Given False)) demo_engine = Returns demo_engine \<and>
   call demo_page 5 0 (Op_restackVisible (Given (Some [''a'', ''a'']))) demo_engine = Returns demo_engine \<and>
   call demo_page 5 0 (Op_addCard ''zz'') demo_engine =
     Returns (demo_engine\<lparr>console := console demo_engine @ [Error ''[CardEngine] Element not found: zz'']\<rparr>) \<and>
   (\<exists>s'. call demo_page 5 0 (Op_setFocus (Given NaN)) demo_engine = Returns s') \<and>
   (\<exists>s'. call demo_page 5 0 (Op_setMotionEnabled Omitted) demo_engine = Returns s') \<and>
   (\<exists>s'. call demo_page 5 0 (Op_addCard ''a'') demo_staged = Returns s') \<and>
   call demo_page 5 0 (Op_addCard ''stage'') demo_staged = Throws HierarchyRequestError demo_staged"
  using public_calls_outcome[where p = demo_page and now = 5 and rnd = 0 and s = demo_engine and k = "''a''"
          and v = "Given False" and ids = "[''a'', ''a'']" and op = "Op_setFocus (Given NaN)"]
    public_calls_outcome[where p = demo_page and now = 5 and rnd = 0 and s = demo_engine and k = "''zz''"
          and op = "Op_setMotionEnabled Omitted"]
    public_calls_outcome[where p = demo_page and now = 5 and rnd = 0 and s = demo_staged and k = "''stage''"
          and op = "Op_addCard ''a''"]
    demo_engine_facts demo_page_surface demo_staged_facts
  by simp

text \<open>
  Claim C4, as stated, fails: \<open>_updateCameraMotion\<close> returns early while motion is
  disabled and nothing moves the camera back. After a pointer move and one frame the
  camera is 2 units off the base position, and it stays there after motion is disabled,
  however many frames follow.
\<close>

theorem camera_not_at_base_counterexample:
  "prefersReducedMotion demo_frozen \<and>
   camera_position demo_frozen = \<lparr> vec_x = Fin 2, vec_y = Fin 800, vec_z = Fin 1200 \<rparr> \<and>
   baseCamera demo_frozen = \<lparr> vec_x = Fin 0, vec_y = Fin 800, vec_z = Fin 1200 \<rparr> \<and>
   camera_position demo_frozen \<noteq> baseCamera demo_frozen"
  by (simp add: demo_defs2 demo_defs engine_defs Let_def)


text \<open>
  Claim C4, amended. After \<open>setMotionEnabled(false)\<close>, and as long as motion is not
  enabled again, the camera position after any number of frames (and any other events)
  is the position the camera had at the call; the parallax offset is frozen too and the
  base position never changes. So the camera is at the base position exactly when it was
  there at the call.
\<close>

theorem camera_frozen_while_motion_disabled:
  assumes "\<forall>e\<in>set evs. \<not> enables_motion e"
  shows "camera_position (run evs (setMotionEnabled (Given False) s)) = camera_position s \<and>
         parallax (run evs (setMotionEnabled (Given False) s)) = parallax s \<and>
         baseCamera (run evs (setMotionEnabled (Given False) s)) = baseCamera s"
  using reduced_run[of "setMotionEnabled (Given False) s" evs] assms
  by (simp add: setMotionEnabled_def)

theorem camera_frozen_while_motion_disabled_witness:
  "camera_position (run [AnimationFrame 16, CardPointerEnter 20 ''a'', AnimationFrame 32]
       (setMotionEnabled (Given False) demo_moved)) = camera_position demo_moved"
  using camera_frozen_while_motion_disabled
          [of "[AnimationFrame 16, CardPointerEnter 20 ''a'', AnimationFrame 32]" demo_moved]
  by simp

text \<open>
  Claim C8, as stated, fails on the pending release timer: \<open>_onCardEnter\<close> clears the
  timeout before it tests the switch lock. Card \<open>a\<close> is hovered and its release timeout 1
  is pending; the pointer enters card \<open>b\<close> inside the lock window: the timeout is gone.
\<close>

theorem locked_hover_cancels_timer_counterexample:
  "activeId (hoverState demo_leaving) = Some ''a'' \<and>
   map (\<lambda>(k, c). (k, hovered c)) (cards demo_leaving) = [(''a'', True), (''b'', False)] \<and>
   30 < switchLockUntil (hoverState demo_leaving) \<and>
   leaveTimer (hoverState demo_leaving) = Some 1 \<and>
   timers demo_leaving = [(1, 160, ''a'')] \<and>
   leaveTimer (hoverState (onCardEnter 30 ''b'' demo_leaving)) = None \<and>
   timers (onCardEnter 30 ''b'' demo_leaving) = [] \<and>
   hoverState (onCardEnter 30 ''b'' demo_leaving) \<noteq> hoverState demo_leaving"
  by (simp add: demo_leaving_def demo_rect_def demo_defs engine_defs Let_def)

text \<open>
  Claim C8, amended. If a card is hovered and the pointer enters another card before the
  lock window has elapsed, the new hover is ignored: the active identifier, every card
  (its hovered flag and home slot), the tweens and the lock deadline are unchanged. A
  pending release timeout is cancelled and \<open>leaveTimer\<close> is reset.
\<close>

theorem locked_hover_is_ignored:
  assumes "reachable s" "cards_get s a = Some c" "hovered c" "a \<noteq> k"
    "now < switchLockUntil (hoverState s)"
  shows "onCardEnter now k s = cancel_leaveTimer s \<and>
         cards (onCardEnter now k s) = cards s \<and>
         tweens (onCardEnter now k s) = tweens s \<and>
         activeId (hoverState (onCardEnter now k s)) = Some a \<and>
         switchLockUntil (hoverState (onCardEnter now k s)) = switchLockUntil (hoverState s) \<and>
         leaveTimer (hoverState (onCardEnter now k s)) = None \<and>
         timers (onCardEnter now k s) =
           (case leaveTimer (hoverState s) of
              None \<Rightarrow> timers s
            | Some h \<Rightarrow> filter (\<lambda>(h', due, j). h' \<noteq> h) (timers s))"
proof -
  have inv: "keys_ok s" "hover_ok s"
    using reachable_invariants[OF assms(1)] by simp_all
  have act: "activeId (hoverState s) = Some a"
    using inv(2) assms(2,3) by (simp add: hover_ok_def only_hovered_def)
  have ne: "a \<noteq> []"
    using keys_ok_empty_key[OF inv(1)] assms(2) by auto
  have eq: "onCardEnter now k s = cancel_leaveTimer s"
    using act ne assms(4,5) by (rule onCardEnter_locked)
  show ?thesis
    unfolding eq using act
    by (simp add: cancel_leaveTimer_def clearTimeout_def Let_def split: option.splits)
qed

theorem locked_hover_is_ignored_witness:
  "reachable demo_leaving \<and> (\<exists>c. cards_get demo_leaving ''a'' = Some c \<and> hovered c) \<and>
   30 < switchLockUntil (hoverState demo_leaving) \<and>
   cards (onCardEnter 30 ''b'' demo_leaving) = cards demo_leaving \<and>
   activeId (hoverState (onCardEnter 30 ''b'' demo_leaving)) = Some ''a'' \<and>
   leaveTimer (hoverState (onCardEnter 30 ''b'' demo_leaving)) = None \<and>
   timers (onCardEnter 30 ''b'' demo_leaving) = []"
proof -
  obtain c where c: "cards_get demo_leaving ''a'' = Some c" "hovered c"
    using demo_leaving_facts(1) by auto
  have l: "30 < switchLockUntil (hoverState demo_leaving)"
    by (simp add: demo_leaving_facts)
  have n: "''a'' \<noteq> ''b''" by simp
  note t = locked_hover_is_ignored[OF reachable_demo_leaving c n l]
  from t have tm: "timers (onCardEnter 30 ''b'' demo_leaving) =
           (case leaveTimer (hoverState demo_leaving) of
              None \<Rightarrow> timers demo_leaving
            | Some h \<Rightarrow> filter (\<lambda>(h', due, j). h' \<noteq> h) (timers demo_leaving))"
    by (elim conjE)
  have e: "timers (onCardEnter 30 ''b'' demo_leaving) = []"
    unfolding tm by (simp add: demo_leaving_facts)
  from t have r: "cards (onCardEnter 30 ''b'' demo_leaving) = cards demo_leaving"
    "activeId (hoverState (onCardEnter 30 ''b'' demo_leaving)) = Some ''a''"
    "leaveTimer (hoverState (onCardEnter 30 ''b'' demo_leaving)) = None"
    by blast+
  have x: "\<exists>c. cards_get demo_leaving ''a'' = Some c \<and> hovered c"
    using c by blast
  show ?thesis
    by (intro conjI reachable_demo_leaving x l r e)
qed

text \<open>
  Claim C9 fails in the code for one input: \<open>Math.min\<close> and \<open>Math.max\<close> return \<open>NaN\<close> when
  an argument is \<open>NaN\<close>, so \<open>setFocus(NaN)\<close> stores \<open>NaN\<close>, which lies in no interval.
  (For every other number the stored level is in the interval, \<open>setFocus_clamps\<close>, and no
  other event assigns the level, \<open>focusLevel_step\<close>.)
\<close>

theorem setFocus_NaN:
  "focusLevel (setFocus (Given NaN) s) = NaN \<and> \<not> in_unit_interval (focusLevel (setFocus (Given NaN) s))"
  by (simp add: setFocus_def)

text \<open>
  Claim C6. When a tracked card is hovered, \<open>setCardVisible(id, false)\<close> first drops it
  with force and clears the active identifier (the card is resting and as visible as
  before), and only then hides it. Afterwards the card is hidden and not hovered, the
  active identifier is cleared, and no tracked card is hovered.
\<close>

theorem hiding_hovered_card_drops_it_first:
  assumes "reachable s" "cards_get s k = Some c" "hovered c"
  shows "setCardVisible now k (Given False) s =
           setCardVisible_show k False (setCardVisible_drop now k False s) \<and>
         (\<exists>r. cards_get (setCardVisible_drop now k False s) k = Some r \<and>
              \<not> hovered r \<and> visible r = visible c) \<and>
         activeId (hoverState (setCardVisible_drop now k False s)) = None \<and>
         (\<exists>h. cards_get (setCardVisible now k (Given False) s) k = Some h \<and>
              \<not> hovered h \<and> \<not> visible h) \<and>
         activeId (hoverState (setCardVisible now k (Given False) s)) = None \<and>
         (\<forall>j d. cards_get (setCardVisible now k (Given False) s) j = Some d \<longrightarrow> \<not> hovered d)"
proof -
  let ?m = "setCardVisible_drop now k False s"
  have inv: "homes_ok s" "hover_ok s"
    using reachable_invariants[OF assms(1)] by simp_all
  have c: "map_of (cards s) k = Some c" using assms(2) by simp
  note d = setCardVisible_drop_hovered[OF inv c assms(3), of now]
  have eq: "setCardVisible now k (Given False) s = setCardVisible_show k False ?m"
    using c by (simp add: setCardVisible_def)
  have a1: "activeId (hoverState ?m) = None"
    unfolding d(1) by simp
  have a2: "activeId (hoverState (setCardVisible_show k False ?m)) = None"
    using a1 by (simp add: setCardVisible_show_def Let_def split: option.splits)
  have none: "\<forall>j d. map_of (cards (setCardVisible_show k False ?m)) j = Some d \<longrightarrow> \<not> hovered d"
    using d(2) unfolding only_hovered_def
    by (auto simp add: setCardVisible_show_map split: if_splits)
  have "map_of (cards (setCardVisible_show k False ?m)) k =
          Some (c\<lparr>hovered := False, hoverTween := Some (nextTid s), visible := False\<rparr>)"
    by (simp add: setCardVisible_show_map d(3))
  then show ?thesis
    unfolding eq using d(3) a1 a2 none by simp
qed

theorem hiding_hovered_card_drops_it_first_witness:
  "reachable demo_hovered \<and> (\<exists>c. cards_get demo_hovered ''a'' = Some c \<and> hovered c) \<and>
   (\<exists>h. cards_get (setCardVisible 50 ''a'' (Given False) demo_hovered) ''a'' = Some h \<and>
        \<not> hovered h \<and> \<not> visible h) \<and>
   activeId (hoverState (setCardVisible 50 ''a'' (Given False) demo_hovered)) = None"
proof -
  obtain c where c: "cards_get demo_hovered ''a'' = Some c" "hovered c"
    using demo_hovered_facts(2) by auto
  note t = hiding_hovered_card_drops_it_first[OF reachable_demo_hovered c, of 50]
  have x: "\<exists>c. cards_get demo_hovered ''a'' = Some c \<and> hovered c"
    using c by blast
  from t have r: "\<exists>h. cards_get (setCardVisible 50 ''a'' (Given False) demo_hovered) ''a'' = Some h \<and>
        \<not> hovered h \<and> \<not> visible h"
    "activeId (hoverState (setCardVisible 50 ''a'' (Given False) demo_hovered)) = None"
    by blast+
  show ?thesis
    by (intro conjI reachable_demo_hovered x r)
qed

text \<open>
  Claim C7. For identifiers \<open>a\<close> and \<open>b\<close> of the active set, a second
  \<open>restackVisible([a, b])\<close> leaves the home slots of \<open>a\<close> and \<open>b\<close> as the first call set
  them: \<open>b\<close> has the slot of index 2 and \<open>a\<close>, when it is another card, the slot of
  index 1.
\<close>

theorem restackVisible_idempotent_on_homes:
  assumes "cards_has s a" "cards_has s b"
  shows "map_option home (cards_get (restackVisible now' (Given (Some [a, b]))
                                      (restackVisible now (Given (Some [a, b])) s)) a) =
           map_option home (cards_get (restackVisible now (Given (Some [a, b])) s) a) \<and>
         map_option home (cards_get (restackVisible now' (Given (Some [a, b]))
                                      (restackVisible now (Given (Some [a, b])) s)) b) =
           map_option home (cards_get (restackVisible now (Given (Some [a, b])) s) b) \<and>
         map_option home (cards_get (restackVisible now (Given (Some [a, b])) s) b) =
           Some (Some (home_of (computeStackTransform 2))) \<and>
         (a \<noteq> b \<longrightarrow> map_option home (cards_get (restackVisible now (Given (Some [a, b])) s) a) =
           Some (Some (home_of (computeStackTransform 1))))"
  by (intro conjI impI restackVisible_home_idem restack_pair_homes[OF assms])

theorem restackVisible_idempotent_on_homes_witness:
  "cards_has demo_two_cards ''b'' \<and> cards_has demo_two_cards ''a'' \<and>
   map_option home (cards_get (restackVisible 70 (Given (Some [''b'', ''a'']))
                                (restackVisible 60 (Given (Some [''b'', ''a''])) demo_two_cards)) ''a'') =
     map_option home (cards_get (restackVisible 60 (Given (Some [''b'', ''a''])) demo_two_cards) ''a'') \<and>
   map_option home (cards_get (restackVisible 70 (Given (Some [''b'', ''a'']))
                                (restackVisible 60 (Given (Some [''b'', ''a''])) demo_two_cards)) ''b'') =
     map_option home (cards_get (restackVisible 60 (Given (Some [''b'', ''a''])) demo_two_cards) ''b'') \<and>
   map_option home (cards_get (restackVisible 60 (Given (Some [''b'', ''a''])) demo_two_cards) ''b'') =
     Some (Some (home_of (computeStackTransform 1)))"
proof -
  note t = restackVisible_idempotent_on_homes[OF demo_two_cards_facts(2,1), of 70 60]
  have n: "''b'' \<noteq> ''a''" by simp
  from t n have r:
    "map_option home (cards_get (restackVisible 70 (Given (Some [''b'', ''a'']))
                                (restackVisible 60 (Given (Some [''b'', ''a''])) demo_two_cards)) ''a'') =
     map_option home (cards_get (restackVisible 60 (Given (Some [''b'', ''a''])) demo_two_cards) ''a'')"
    "map_option home (cards_get (restackVisible 70 (Given (Some [''b'', ''a'']))
                                (restackVisible 60 (Given (Some [''b'', ''a''])) demo_two_cards)) ''b'') =
     map_option home (cards_get (restackVisible 60 (Given (Some [''b'', ''a''])) demo_two_cards) ''b'')"
    "map_option home (cards_get (restackVisible 60 (Given (Some [''b'', ''a''])) demo_two_cards) ''b'') =
     Some (Some (home_of (computeStackTransform 1)))"
    by blast+
  show ?thesis
    by (intro conjI demo_two_cards_facts r)
qed

text \<open>
  Claim C10. \<open>addCard(id)\<close> with an identifier that is already in the active set (and a
  matching element) overwrites the Map entry: the size and the keys of the Map stay as
  they are, the index passed to \<open>_computeStackTransform\<close> is that size, the new entry is
  a fresh object with the home slot of that index, and the object tracked before stays in
  the scene, tracked under no identifier.
\<close>

theorem addCard_existing_identifier_overwrites:
  assumes "reachable s" "cards_get s k = Some old" "getElementById (document s) k = Some el"
  shows "cards_size (addCard now k s) = cards_size s \<and>
         map fst (cards (addCard now k s)) = map fst (cards s) \<and>
         addCard_index k s = Some (cards_size s) \<and>
         (\<exists>new. cards_get (addCard now k s) k = Some new \<and> oid new = nextOid s \<and>
                oid new \<noteq> oid old \<and>
                home new = Some (home_of (computeStackTransform (cards_size s)))) \<and>
         scene (addCard now k s) = scene s @ [nextOid s] \<and>
         oid old \<in> set (scene (addCard now k s)) \<and>
         (\<forall>j c. cards_get (addCard now k s) j = Some c \<longrightarrow> oid c \<noteq> oid old)"
proof -
  have o: "oids_ok s" using assms(1) by (rule reachable_oids_ok)
  have m: "map_of (cards s) k = Some old" using assms(2) by simp
  have key: "k \<in> set (map fst (cards s))" using m by (rule map_of_keys)
  have at: "oid_at s k = Some (oid old)" using m by (simp add: oid_at_def)
  have old: "oid old < nextOid s" "oid old \<in> set (scene s)"
    using o at unfolding oids_ok_def by blast+
  have uniq: "\<And>j. oid_at s j = Some (oid old) \<Longrightarrow> j = k"
    using o at unfolding oids_ok_def by blast
  note f = addCard_found[OF assms(3), of now]
  have keys: "map fst (cards (addCard now k s)) = map fst (cards s)"
    using key assms(3) by (simp add: addCard_keys)
  have "length (map fst (cards (addCard now k s))) = length (map fst (cards s))"
    by (simp only: keys)
  then have size: "cards_size (addCard now k s) = cards_size s" by simp
  have idx: "addCard_index k s = Some (cards_size s)"
    using key assms(3) by (simp add: addCard_index_eq)
  have new: "\<exists>new. cards_get (addCard now k s) k = Some new \<and> oid new = nextOid s \<and>
                oid new \<noteq> oid old \<and>
                home new = Some (home_of (computeStackTransform (cards_size s)))"
    using key assms(3) old(1) by (simp add: addCard_map new_CSS3DObject_def)
  have others: "oid c \<noteq> oid old" if "cards_get (addCard now k s) j = Some c" for j c
  proof
    assume e: "oid c = oid old"
    have a: "oid_at (addCard now k s) j = Some (oid old)"
      using that e by (simp add: oid_at_def)
    show False
    proof (cases "j = k")
      case True
      then show False using a old(1) by (simp add: f(3))
    next
      case False
      then have "oid_at s j = Some (oid old)" using a by (simp add: f(3))
      then show False using uniq False by blast
    qed
  qed
  show ?thesis
    using size keys idx new f(1) old(2) others by (simp del: cards_get_def cards_size_def)
qed

theorem addCard_existing_identifier_overwrites_witness:
  "reachable demo_two_cards \<and> map_option oid (cards_get demo_two_cards ''a'') = Some 0 \<and>
   getElementById (document demo_two_cards) ''a'' \<noteq> None \<and>
   cards_size demo_two_cards = 2 \<and>
   cards_size (addCard 90 ''a'' demo_two_cards) = 2 \<and>
   addCard_index ''a'' demo_two_cards = Some 2 \<and>
   scene (addCard 90 ''a'' demo_two_cards) = [0, 1, 2]"
proof -
  obtain old where old: "cards_get demo_two_cards ''a'' = Some old"
    using demo_two_cards_lookup(1) by auto
  obtain el where el: "getElementById (document demo_two_cards) ''a'' = Some el"
    using demo_two_cards_lookup(2) by auto
  note t = addCard_existing_identifier_overwrites[OF reachable_demo_two_cards old el, of 90]
  from t have r: "cards_size (addCard 90 ''a'' demo_two_cards) = cards_size demo_two_cards"
    "addCard_index ''a'' demo_two_cards = Some (cards_size demo_two_cards)"
    "scene (addCard 90 ''a'' demo_two_cards) = scene demo_two_cards @ [nextOid demo_two_cards]"
    by blast+
  show ?thesis
    using r reachable_demo_two_cards demo_two_cards_lookup
    by (simp del: cards_get_def cards_size_def)
qed

text \<open>
  Claim C5, as stated, fails in its second half: the completion callback of \<open>discard\<close>
  removes the object from the scene and the identifier from the Map and stops no tween.
  Card \<open>a\<close> is discarded at time 0 and hovered at time 500; after the frame at time 600 it
  has left the active set and the scene, and the tweens of its deal (0, 1) and of its
  hover lift (5, 6), all on its object 0, are still in the group.
\<close>

theorem removal_cancels_no_tween_counterexample:
  "\<not> cards_has demo_discarded ''a'' \<and> scene demo_discarded = [1] \<and>
   map (\<lambda>tw. (tid tw, target tw, startTime tw, duration tw)) (tweens demo_discarded) =
     [(0, 0, 0, 1000), (1, 0, 0, 1000), (2, 1, 0, 1000), (3, 1, 0, 1000), (5, 0, 500, 240), (6, 0, 500, 240)]"
  by (simp add: demo_discarded_def demo_defs engine_defs Let_def)


text \<open>
  Claim C5, amended. For a card of the active set, \<open>discard(id)\<close> starts the discard
  animation and leaves the active set and the scene as they are. An identifier leaves
  the active set only in a frame at which a discard animation of that identifier is
  complete; with no earlier discard of it pending, the card is still tracked at every
  frame before 600 ms have passed, and a frame at or after 600 ms removes it from the
  active set and its object from the scene. That frame cancels nothing else: the group
  keeps every tween that is not complete, also those of the removed object.
\<close>

theorem discard_removes_on_completion:
  assumes "reachable s" "cards_get s k = Some c"
  shows "cards (discard now k s) = cards s \<and> scene (discard now k s) = scene s \<and>
         (\<forall>e. \<not> cards_has (step e s) k \<longrightarrow>
              (\<exists>t tw. e = AnimationFrame t \<and> tw \<in> set (tweens s) \<and> tween_complete t tw \<and>
                      discards k tw)) \<and>
         (\<forall>t. t < now + 600 \<and> (\<forall>tw\<in>set (tweens s). \<not> discards k tw) \<longrightarrow>
              cards_get (animate t (discard now k s)) k = Some c) \<and>
         (\<forall>t. now + 600 \<le> t \<longrightarrow>
              \<not> cards_has (animate t (discard now k s)) k \<and>
              oid c \<notin> set (scene (animate t (discard now k s)))) \<and>
         (\<forall>t. tweens (animate t (discard now k s)) =
              filter (\<lambda>tw. \<not> tween_complete t tw) (tweens (discard now k s)))"
proof -
  let ?d = "discard now k s"
  let ?tw = "\<lparr> tid = nextTid s, target = oid c, property = Position,
                destination = [(''x'', - 1000), (''y'', 0), (''z'', 0)], duration = 600,
                easingFn = Back_In, startTime = now,
                onComplete = DiscardComplete (oid c) k \<rparr>"
  have m: "map_of (cards s) k = Some c" using assms(2) by simp
  have tw: "tweens ?d = tweens s @ [?tw]" using m by (rule discard_found)
  have comp: "tween_complete t ?tw \<longleftrightarrow> now + 600 \<le> t" for t
    by (auto simp add: tween_complete_def field_simps)
  have a: "cards ?d = cards s" "scene ?d = scene s" by simp_all
  have b: "\<exists>t tw. e = AnimationFrame t \<and> tw \<in> set (tweens s) \<and> tween_complete t tw \<and> discards k tw"
    if "\<not> cards_has (step e s) k" for e
    using key_leaves_only_in_frame[of s k e] m that by simp
  have c1: "cards_get (animate t ?d) k = Some c"
    if "t < now + 600" "\<forall>tw\<in>set (tweens s). \<not> discards k tw" for t
    using that m by (auto simp add: update_tweens_map tw comp)
  have dist: "distinct (scene ?d)"
    using reachable_oids_ok[OF assms(1)] by (simp add: oids_ok_def)
  have c2: "\<not> cards_has (animate t ?d) k \<and> oid c \<notin> set (scene (animate t ?d))" if "now + 600 \<le> t" for t
  proof -
    have 1: "\<not> cards_has (animate t ?d) k"
      using that by (simp add: update_tweens_map tw comp)
    have "scene (animate t ?d) = scene (update_tweens t (tweens ?d) ?d)"
      by (simp add: animate_def TWEEN_update_def updateCameraMotion_def Let_def)
    then have "oid c \<notin> set (scene (animate t ?d))"
      using update_tweens_scene[OF dist, of t "tweens ?d"] that by (auto simp add: tw comp)
    then show ?thesis using 1 by blast
  qed
  have "reachable (step (Discard now k) s)" using assms(1) by (rule reachable.stepped)
  then have "tids_ok ?d" using reachable_tids_ok by fastforce
  then have d: "tweens (animate t ?d) = filter (\<lambda>tw. \<not> tween_complete t tw) (tweens ?d)" for t
    by (rule animate_tweens)
  show ?thesis
    using a b c1 c2 d by (simp del: cards_get_def cards_has_def discards.simps)
qed

theorem discard_removes_on_completion_witness:
  "reachable demo_two_cards \<and> map_option oid (cards_get demo_two_cards ''a'') = Some 0 \<and>
   cards (discard 0 ''a'' demo_two_cards) = cards demo_two_cards \<and>
   \<not> cards_has (animate 600 (discard 0 ''a'' demo_two_cards)) ''a'' \<and>
   0 \<notin> set (scene (animate 600 (discard 0 ''a'' demo_two_cards)))"
proof -
  obtain c where c: "cards_get demo_two_cards ''a'' = Some c" "oid c = 0"
    using demo_two_cards_lookup(1) by auto
  note t = discard_removes_on_completion[OF reachable_demo_two_cards c(1), of 0]
  from t have 1: "cards (discard 0 ''a'' demo_two_cards) = cards demo_two_cards" by blast
  from t have "\<forall>t. 0 + 600 \<le> t \<longrightarrow>
              \<not> cards_has (animate t (discard 0 ''a'' demo_two_cards)) ''a'' \<and>
              oid c \<notin> set (scene (animate t (discard 0 ''a'' demo_two_cards)))"
    by blast
  then have 2: "\<not> cards_has (animate 600 (discard 0 ''a'' demo_two_cards)) ''a''"
    "0 \<notin> set (scene (animate 600 (discard 0 ''a'' demo_two_cards)))"
    using c(2) by (auto simp del: cards_has_def)
  show ?thesis
    by (intro conjI reachable_demo_two_cards demo_two_cards_lookup(1) 1 2)
qed




end
